theory Spec2Isabelle
  imports Main
begin

section \<open>Data model\<close>

text \<open>
  The script \<^verbatim>\<open>0.merge-repurposing-compounds.py\<close> is a straight-line pandas pipeline.
  A table cell is a missing value (\<^verbatim>\<open>np.nan\<close>), a Python string or an integer (the index
  levels that \<^verbatim>\<open>reset_index\<close> turns into columns).  A data frame is its list of column
  labels together with its rows, each row holding one cell per label, in label order.
  Every frame of the script carries a \<^verbatim>\<open>RangeIndex\<close> (fresh from \<^verbatim>\<open>read_csv\<close> or after
  \<^verbatim>\<open>reset_index(drop=True)\<close>), so the index of a row is its position in \<open>rows\<close>.
  Strings are byte strings: the files are read as ISO-8859-1, one byte per character.
  Missing values compare equal to each other, as they do as pandas merge keys and as the
  one \<^verbatim>\<open>np.nan\<close> object in a Python set.
\<close>

datatype cell = NaN | Str string | Num int

record dataframe =
  columns :: "string list"
  rows :: "cell list list"

datatype error = AssertionError | AttributeError | KeyError | ValueError

datatype how = Inner | Left


text \<open>A frame is well formed when its labels are unique (\<^verbatim>\<open>read_csv\<close> renames duplicate
  header fields) and every row has one cell per label.\<close>

definition wf_df :: "dataframe \<Rightarrow> bool" where
  "wf_df df = (distinct (columns df) \<and> list_all (\<lambda>r. length r = length (columns df)) (rows df))"

section \<open>The pandas and Python operations the script calls\<close>

text \<open>Sequencing of steps that may raise: the first exception ends the run.\<close>

definition and_then :: "error + 'a \<Rightarrow> ('a \<Rightarrow> error + 'b) \<Rightarrow> error + 'b" where
  "and_then m f = (case m of Inl e \<Rightarrow> Inl e | Inr x \<Rightarrow> f x)"

text \<open>\<^verbatim>\<open>Series.apply\<close> with a function that may raise, left to right.\<close>

fun apply_series :: "('a \<Rightarrow> error + 'b) \<Rightarrow> 'a list \<Rightarrow> error + 'b list" where
  "apply_series f [] = Inr []"
| "apply_series f (x # xs) =
     (case f x of Inl e \<Rightarrow> Inl e
      | Inr y \<Rightarrow> (case apply_series f xs of Inl e \<Rightarrow> Inl e | Inr ys \<Rightarrow> Inr (y # ys)))"

text \<open>Position of a label (\<^verbatim>\<open>list.index\<close>, \<^verbatim>\<open>Index.get_loc\<close>): the first occurrence.\<close>

fun get_loc :: "string list \<Rightarrow> string \<Rightarrow> nat option" where
  "get_loc [] c = None"
| "get_loc (x # xs) c = (if x = c then Some 0 else map_option Suc (get_loc xs c))"

text \<open>Attribute access \<^verbatim>\<open>df.name\<close>: the column as a list, \<^verbatim>\<open>AttributeError\<close> without it.\<close>

definition series :: "dataframe \<Rightarrow> string \<Rightarrow> error + cell list" where
  "series df name =
     (case get_loc (columns df) name of
        None \<Rightarrow> Inl AttributeError
      | Some i \<Rightarrow> Inr (map (\<lambda>r. r ! i) (rows df)))"

text \<open>The cell of a row under a label, for stating properties.\<close>

definition cell_of :: "dataframe \<Rightarrow> cell list \<Rightarrow> string \<Rightarrow> cell option" where
  "cell_of df r name = map_option (\<lambda>i. r ! i) (get_loc (columns df) name)"

text \<open>The rows that hold the given values under the given labels, for stating properties.\<close>

definition rows_with :: "dataframe \<Rightarrow> (string \<times> cell) list \<Rightarrow> cell list list" where
  "rows_with df conds = filter (\<lambda>r. list_all (\<lambda>(c, v). cell_of df r c = Some v) conds) (rows df)"

text \<open>\<^verbatim>\<open>set(a).difference(set(b))\<close>, as a list without duplicates.\<close>

definition difference :: "cell list \<Rightarrow> cell list \<Rightarrow> cell list" where
  "difference a b = remdups (filter (\<lambda>x. x \<notin> set b) a)"

text \<open>\<^verbatim>\<open>list.pop(i)\<close> leaves the list without its element at \<open>i\<close>.\<close>

definition drop_nth :: "nat \<Rightarrow> 'a list \<Rightarrow> 'a list" where
  "drop_nth i xs = take i xs @ drop (Suc i) xs"

text \<open>Column labels of a merge: the left labels, then the right labels that are not join
  keys; a label on both sides that is not a join key gets the suffix \<^verbatim>\<open>_x\<close> on the left
  and \<^verbatim>\<open>_y\<close> on the right.\<close>

definition merge_columns :: "string list \<Rightarrow> string list \<Rightarrow> string list \<Rightarrow> string list" where
  "merge_columns keys lcols rcols =
     map (\<lambda>c. if c \<notin> set keys \<and> c \<in> set rcols then c @ ''_x'' else c) lcols @
     map (\<lambda>c. if c \<in> set lcols then c @ ''_y'' else c) (filter (\<lambda>c. c \<notin> set keys) rcols)"

text \<open>The output rows of one left row \<open>l\<close> with its matching right rows \<open>ms\<close>: one per match;
  without a match nothing for an inner join, and the row completed by \<open>filler\<close> for a left
  join.\<close>

definition join_row :: "how \<Rightarrow> cell list \<Rightarrow> cell list list \<Rightarrow> cell list \<Rightarrow> cell list list" where
  "join_row h l ms filler =
     (if ms = [] then (case h of Inner \<Rightarrow> [] | Left \<Rightarrow> [l @ filler])
      else map (\<lambda>m. l @ m) ms)"

text \<open>\<^verbatim>\<open>left.merge(right, on=key, how=h)\<close>: the key column is kept once, from the left;
  rows follow the order of the left keys.\<close>

definition merge_on :: "how \<Rightarrow> string \<Rightarrow> dataframe \<Rightarrow> dataframe \<Rightarrow> error + dataframe" where
  "merge_on h key left right =
     (case get_loc (columns left) key of
        None \<Rightarrow> Inl KeyError
      | Some kl \<Rightarrow>
         (case get_loc (columns right) key of
            None \<Rightarrow> Inl KeyError
          | Some kr \<Rightarrow>
              Inr \<lparr>columns = merge_columns [key] (columns left) (columns right),
                   rows = concat (map (\<lambda>l.
                       join_row h l
                         (map (drop_nth kr) (filter (\<lambda>r. r ! kr = l ! kl) (rows right)))
                         (replicate (length (columns right) - 1) NaN))
                     (rows left))\<rparr>))"

text \<open>\<^verbatim>\<open>left.merge(right, left_index=True, right_on=key, how=h)\<close>: the left index is matched
  with the right key column, which stays in the result as a right column.  A left row
  without a match is completed by missing values, with its index as the key.\<close>

definition merge_left_index :: "how \<Rightarrow> string \<Rightarrow> dataframe \<Rightarrow> dataframe \<Rightarrow> error + dataframe" where
  "merge_left_index h key left right =
     (case get_loc (columns right) key of
        None \<Rightarrow> Inl KeyError
      | Some kr \<Rightarrow>
          Inr \<lparr>columns = merge_columns [] (columns left) (columns right),
               rows = concat (map (\<lambda>(i, l).
                   join_row h l
                     (filter (\<lambda>r. r ! kr = Num (int i)) (rows right))
                     ((replicate (length (columns right)) NaN)[kr := Num (int i)]))
                 (enumerate 0 (rows left)))\<rparr>)"

text \<open>\<^verbatim>\<open>df.loc[:, labels]\<close>: the columns under the given labels, in the given order.\<close>

definition loc_columns :: "dataframe \<Rightarrow> string list \<Rightarrow> error + dataframe" where
  "loc_columns df labels =
     (case those (map (get_loc (columns df)) labels) of
        None \<Rightarrow> Inl KeyError
      | Some ps \<Rightarrow> Inr \<lparr>columns = labels, rows = map (\<lambda>r. map (\<lambda>i. r ! i) ps) (rows df)\<rparr>)"

text \<open>\<^verbatim>\<open>df.assign(name=values)\<close>: a new last column, or the existing column of that name
  overwritten in place.\<close>

definition assign :: "dataframe \<Rightarrow> string \<Rightarrow> cell list \<Rightarrow> dataframe" where
  "assign df name vals =
     (case get_loc (columns df) name of
        None \<Rightarrow> \<lparr>columns = columns df @ [name],
                  rows = map (\<lambda>(r, v). r @ [v]) (zip (rows df) vals)\<rparr>
      | Some i \<Rightarrow> \<lparr>columns = columns df,
                    rows = map (\<lambda>(r, v). r[i := v]) (zip (rows df) vals)\<rparr>)"

text \<open>\<^verbatim>\<open>s.startswith(p)\<close>, \<^verbatim>\<open>str(x)\<close> of a string or \<^verbatim>\<open>None\<close>, and \<^verbatim>\<open>s.split(sep)\<close>.\<close>

definition startswith :: "string \<Rightarrow> string \<Rightarrow> bool" where
  "startswith s p = (take (length p) s = p)"

fun py_str :: "string option \<Rightarrow> string" where
  "py_str None = ''None''"
| "py_str (Some s) = s"

fun str_split :: "char \<Rightarrow> string \<Rightarrow> string list" where
  "str_split sep [] = [[]]"
| "str_split sep (c # cs) =
     (if c = sep then [] # str_split sep cs
      else (case str_split sep cs of [] \<Rightarrow> [[c]] | w # ws \<Rightarrow> (c # w) # ws))"

section \<open>The script\<close>

subsection \<open>Checking for \<^verbatim>\<open>pert_iname\<close> discrepancies (lines 60 to 62)\<close>

definition check_pert_iname :: "dataframe \<Rightarrow> dataframe \<Rightarrow> error + unit" where
  "check_pert_iname drug_df sample_df =
     and_then (series drug_df ''pert_iname'') (\<lambda>d.
     and_then (series sample_df ''pert_iname'') (\<lambda>s.
       if length (difference d s) \<noteq> 0 then Inl AssertionError
       else if length (difference s d) \<noteq> 0 then Inl AssertionError
       else Inr ()))"

subsection \<open>Merging the samples and drugs data (lines 70 to 81)\<close>

text \<open>\<^verbatim>\<open>col_order.insert(0, col_order.pop(col_order.index("broad_id")))\<close>;
  \<^verbatim>\<open>list.index\<close> raises \<^verbatim>\<open>ValueError\<close> for a value that is not in the list.\<close>

definition col_order :: "string list \<Rightarrow> error + string list" where
  "col_order cols =
     (case get_loc cols ''broad_id'' of
        None \<Rightarrow> Inl ValueError
      | Some i \<Rightarrow> Inr (cols ! i # drop_nth i cols))"

text \<open>The first \<^verbatim>\<open>apply\<close>: \<^verbatim>\<open>inchi.InchiToInchiKey(x) if x.startswith("InChI") else x\<close>.
  The chemistry library's conversion is a parameter; it returns a key or \<^verbatim>\<open>None\<close>.
  A cell that is not a string has no \<^verbatim>\<open>startswith\<close>.\<close>

definition to_inchikey :: "(string \<Rightarrow> string option) \<Rightarrow> cell \<Rightarrow> error + string option" where
  "to_inchikey InchiToInchiKey x =
     (case x of
        Str s \<Rightarrow> Inr (if startswith s ''InChI'' then InchiToInchiKey s else Some s)
      | _ \<Rightarrow> Inl AttributeError)"

text \<open>The second \<^verbatim>\<open>apply\<close>: \<^verbatim>\<open>str(x)[:14]\<close>.\<close>

definition first14 :: "string option \<Rightarrow> cell" where
  "first14 x = Str (take 14 (py_str x))"

definition reorder_assign :: "(string \<Rightarrow> string option) \<Rightarrow> dataframe \<Rightarrow> error + dataframe" where
  "reorder_assign InchiToInchiKey combined_df =
     and_then (col_order (columns combined_df)) (\<lambda>order.
     and_then (loc_columns combined_df order) (\<lambda>reordered.
     and_then (series combined_df ''InChIKey'') (\<lambda>keys.
     and_then (apply_series (to_inchikey InchiToInchiKey) keys) (\<lambda>converted.
       Inr (assign reordered ''InChIKey14'' (map first14 converted))))))"

definition consolidate ::
  "(string \<Rightarrow> string option) \<Rightarrow> dataframe \<Rightarrow> dataframe \<Rightarrow> error + dataframe" where
  "consolidate InchiToInchiKey drug_df sample_df =
     and_then (check_pert_iname drug_df sample_df) (\<lambda>_.
     and_then (merge_on Inner ''pert_iname'' drug_df sample_df) (\<lambda>combined_df.
       reorder_assign InchiToInchiKey combined_df))"

subsection \<open>The long version (lines 104 to 170)\<close>

definition placeholder :: string where
  "placeholder = ''replace_with_na''"

definition split_col_index :: string where
  "split_col_index = ''repurposing_info_index''"

text \<open>\<^verbatim>\<open>df.name = df.name.fillna(v)\<close>.\<close>

definition fill_cell :: "string \<Rightarrow> cell \<Rightarrow> cell" where
  "fill_cell v c = (if c = NaN then Str v else c)"

definition fillna :: "string \<Rightarrow> string \<Rightarrow> dataframe \<Rightarrow> error + dataframe" where
  "fillna name v df =
     (case get_loc (columns df) name of
        None \<Rightarrow> Inl AttributeError
      | Some i \<Rightarrow> Inr (df\<lparr>rows := map (\<lambda>r. r[i := fill_cell v (r ! i)]) (rows df)\<rparr>))"

definition fill_placeholders :: "dataframe \<Rightarrow> error + dataframe" where
  "fill_placeholders combined_df =
     and_then (fillna ''moa'' placeholder combined_df) (fillna ''target'' placeholder)"

text \<open>\<^verbatim>\<open>.str.split("|")\<close> needs string values.\<close>

definition split_cell :: "cell \<Rightarrow> error + string list" where
  "split_cell c = (case c of Str s \<Rightarrow> Inr (str_split CHR ''|'' s) | _ \<Rightarrow> Inl AttributeError)"

text \<open>\<^verbatim>\<open>pd.DataFrame(lists, index=...)\<close>: one row per list, padded with missing values to
  the longest list.\<close>

definition frame_of_lists :: "string list list \<Rightarrow> cell list list" where
  "frame_of_lists ls =
     map (\<lambda>vs. map Str vs @ replicate (foldr max (map length ls) 0 - length vs) NaN) ls"

text \<open>\<^verbatim>\<open>.stack().reset_index()\<close>: one row (row index, column position, value) for every cell
  that is not missing, row by row.\<close>

definition stack_reset_index :: "cell list list \<Rightarrow> cell list list" where
  "stack_reset_index rs =
     concat (map (\<lambda>(i, r).
         map (\<lambda>(j, v). [Num (int i), Num (int j), v])
           (filter (\<lambda>(j, v). v \<noteq> NaN) (enumerate 0 r)))
       (enumerate 0 rs))"

text \<open>The values of a cell of pipe-separated values, for stating properties.\<close>

definition pipe_values :: "cell \<Rightarrow> string list" where
  "pipe_values c = (case c of Str s \<Rightarrow> str_split CHR ''|'' s | _ \<Rightarrow> [])"

definition split_df :: "string \<Rightarrow> string \<Rightarrow> dataframe \<Rightarrow> error + dataframe" where
  "split_df name unique combined_df =
     and_then (series combined_df name) (\<lambda>col.
     and_then (apply_series split_cell col) (\<lambda>lists.
       Inr \<lparr>columns = [split_col_index, ''_'', unique],
            rows = stack_reset_index (frame_of_lists lists)\<rparr>))"

definition explode_merge :: "dataframe \<Rightarrow> error + dataframe" where
  "explode_merge combined_df =
     and_then (split_df ''moa'' ''moa_unique'' combined_df) (\<lambda>moa_split_df.
     and_then (split_df ''target'' ''target_unique'' combined_df) (\<lambda>target_split_df.
     and_then (loc_columns moa_split_df [split_col_index, ''moa_unique'']) (\<lambda>moa_part.
     and_then (merge_left_index Left split_col_index combined_df moa_part) (\<lambda>with_moa.
     and_then (loc_columns target_split_df [split_col_index, ''target_unique'']) (\<lambda>target_part.
       merge_on Left split_col_index with_moa target_part)))))"

text \<open>\<^verbatim>\<open>df.loc[df.name == v, "name"] = np.nan\<close>.\<close>

definition restore_cell :: "string \<Rightarrow> cell \<Rightarrow> cell" where
  "restore_cell v c = (if c = Str v then NaN else c)"

definition restore_column :: "string \<Rightarrow> string \<Rightarrow> dataframe \<Rightarrow> error + dataframe" where
  "restore_column name v df =
     (case get_loc (columns df) name of
        None \<Rightarrow> Inl AttributeError
      | Some i \<Rightarrow> Inr (df\<lparr>rows := map (\<lambda>r. r[i := restore_cell v (r ! i)]) (rows df)\<rparr>))"

definition restore_nulls :: "dataframe \<Rightarrow> error + dataframe" where
  "restore_nulls long_combined_df =
     and_then (restore_column ''moa'' placeholder long_combined_df) (\<lambda>df1.
     and_then (restore_column ''moa_unique'' placeholder df1) (\<lambda>df2.
     and_then (restore_column ''target'' placeholder df2) (\<lambda>df3.
       restore_column ''target_unique'' placeholder df3)))"

definition long_format :: "dataframe \<Rightarrow> error + dataframe" where
  "long_format combined_df =
     and_then (fill_placeholders combined_df) (\<lambda>filled.
     and_then (explode_merge filled) restore_nulls)"

subsection \<open>The whole run\<close>


section \<open>Sample tables\<close>

text \<open>A small drug table and sample table in the layout of the CLUE files, a conversion
  that knows one InChI string, and a drug table with a compound that has no sample.\<close>

definition ex_inchi :: "string \<Rightarrow> string option" where
  "ex_inchi s = (if s = ''InChI=1S/x'' then Some ''ABCDEFGHIJKLMN-OPQRSTUVWX-Y'' else None)"

definition ex_drug :: dataframe where
  "ex_drug = \<lparr>columns = [''pert_iname'', ''moa'', ''target''],
     rows = [[Str ''drugA'', Str ''a|b'', Str ''x|y''],
             [Str ''drugB'', NaN, Str ''z''],
             [Str ''drugC'', Str ''replace_with_na'', NaN]]\<rparr>"

definition ex_sample :: dataframe where
  "ex_sample = \<lparr>columns = [''pert_iname'', ''broad_id'', ''InChIKey''],
     rows = [[Str ''drugA'', Str ''BRD-1'', Str ''BSYNRYMUTXBXSQ-UHFFFAOYSA-N''],
             [Str ''drugB'', Str ''BRD-2'', Str ''InChI=1S/x''],
             [Str ''drugC'', Str ''BRD-3'', Str ''InChI=bad''],
             [Str ''drugA'', Str ''BRD-4'', Str ''SHORT'']]\<rparr>"


text \<open>The join of the sample tables, and the consolidated table made from it.\<close>

definition ex_joined :: dataframe where
  "ex_joined = \<lparr>columns = [''pert_iname'', ''moa'', ''target'', ''broad_id'', ''InChIKey''],
     rows = [[Str ''drugA'', Str ''a|b'', Str ''x|y'', Str ''BRD-1'',
                Str ''BSYNRYMUTXBXSQ-UHFFFAOYSA-N''],
             [Str ''drugA'', Str ''a|b'', Str ''x|y'', Str ''BRD-4'', Str ''SHORT''],
             [Str ''drugB'', NaN, Str ''z'', Str ''BRD-2'', Str ''InChI=1S/x''],
             [Str ''drugC'', Str ''replace_with_na'', NaN, Str ''BRD-3'',
                Str ''InChI=bad'']]\<rparr>"

definition ex_combined :: dataframe where
  "ex_combined = \<lparr>columns = [''broad_id'', ''pert_iname'', ''moa'', ''target'', ''InChIKey'',
                              ''InChIKey14''],
     rows = [[Str ''BRD-1'', Str ''drugA'', Str ''a|b'', Str ''x|y'',
                Str ''BSYNRYMUTXBXSQ-UHFFFAOYSA-N'', Str ''BSYNRYMUTXBXSQ''],
             [Str ''BRD-4'', Str ''drugA'', Str ''a|b'', Str ''x|y'', Str ''SHORT'',
                Str ''SHORT''],
             [Str ''BRD-2'', Str ''drugB'', NaN, Str ''z'', Str ''InChI=1S/x'',
                Str ''ABCDEFGHIJKLMN''],
             [Str ''BRD-3'', Str ''drugC'', Str ''replace_with_na'', NaN, Str ''InChI=bad'',
                Str ''None'']]\<rparr>"

text \<open>A sample table that already has a column named \<^verbatim>\<open>InChIKey14\<close>.\<close>

definition ex_drug14 :: dataframe where
  "ex_drug14 = \<lparr>columns = [''pert_iname'', ''moa''], rows = [[Str ''drugA'', Str ''a'']]\<rparr>"

definition ex_sample14 :: dataframe where
  "ex_sample14 = \<lparr>columns = [''pert_iname'', ''InChIKey14'', ''broad_id'', ''InChIKey''],
     rows = [[Str ''drugA'', Str ''old'', Str ''BRD-1'',
                Str ''BSYNRYMUTXBXSQ-UHFFFAOYSA-N'']]\<rparr>"

definition ex_joined14 :: dataframe where
  "ex_joined14 = \<lparr>columns = [''pert_iname'', ''moa'', ''InChIKey14'', ''broad_id'', ''InChIKey''],
     rows = [[Str ''drugA'', Str ''a'', Str ''old'', Str ''BRD-1'',
                Str ''BSYNRYMUTXBXSQ-UHFFFAOYSA-N'']]\<rparr>"

definition ex_combined14 :: dataframe where
  "ex_combined14 = \<lparr>columns = [''broad_id'', ''pert_iname'', ''moa'', ''InChIKey14'', ''InChIKey''],
     rows = [[Str ''BRD-1'', Str ''drugA'', Str ''a'', Str ''BSYNRYMUTXBXSQ'',
                Str ''BSYNRYMUTXBXSQ-UHFFFAOYSA-N'']]\<rparr>"

text \<open>The long table made from the consolidated sample table.\<close>

definition ex_long :: dataframe where
  "ex_long = \<lparr>columns = [''broad_id'', ''pert_iname'', ''moa'', ''target'', ''InChIKey'',
                          ''InChIKey14'', ''repurposing_info_index'', ''moa_unique'',
                          ''target_unique''],
     rows = [[Str ''BRD-1'', Str ''drugA'', Str ''a|b'', Str ''x|y'',
                Str ''BSYNRYMUTXBXSQ-UHFFFAOYSA-N'', Str ''BSYNRYMUTXBXSQ'',
                Num 0, Str ''a'', Str ''x''],
             [Str ''BRD-1'', Str ''drugA'', Str ''a|b'', Str ''x|y'',
                Str ''BSYNRYMUTXBXSQ-UHFFFAOYSA-N'', Str ''BSYNRYMUTXBXSQ'',
                Num 0, Str ''a'', Str ''y''],
             [Str ''BRD-1'', Str ''drugA'', Str ''a|b'', Str ''x|y'',
                Str ''BSYNRYMUTXBXSQ-UHFFFAOYSA-N'', Str ''BSYNRYMUTXBXSQ'',
                Num 0, Str ''b'', Str ''x''],
             [Str ''BRD-1'', Str ''drugA'', Str ''a|b'', Str ''x|y'',
                Str ''BSYNRYMUTXBXSQ-UHFFFAOYSA-N'', Str ''BSYNRYMUTXBXSQ'',
                Num 0, Str ''b'', Str ''y''],
             [Str ''BRD-4'', Str ''drugA'', Str ''a|b'', Str ''x|y'', Str ''SHORT'',
                Str ''SHORT'', Num 1, Str ''a'', Str ''x''],
             [Str ''BRD-4'', Str ''drugA'', Str ''a|b'', Str ''x|y'', Str ''SHORT'',
                Str ''SHORT'', Num 1, Str ''a'', Str ''y''],
             [Str ''BRD-4'', Str ''drugA'', Str ''a|b'', Str ''x|y'', Str ''SHORT'',
                Str ''SHORT'', Num 1, Str ''b'', Str ''x''],
             [Str ''BRD-4'', Str ''drugA'', Str ''a|b'', Str ''x|y'', Str ''SHORT'',
                Str ''SHORT'', Num 1, Str ''b'', Str ''y''],
             [Str ''BRD-2'', Str ''drugB'', NaN, Str ''z'', Str ''InChI=1S/x'',
                Str ''ABCDEFGHIJKLMN'', Num 2, NaN, Str ''z''],
             [Str ''BRD-3'', Str ''drugC'', NaN, NaN, Str ''InChI=bad'', Str ''None'',
                Num 3, NaN, NaN]]\<rparr>"

text \<open>The same consolidated table after the placeholders are filled in, and the table
  merged from it before the placeholders are taken out again.\<close>

definition ex_filled :: dataframe where
  "ex_filled = \<lparr>columns = columns ex_combined,
     rows = [[Str ''BRD-1'', Str ''drugA'', Str ''a|b'', Str ''x|y'',
                Str ''BSYNRYMUTXBXSQ-UHFFFAOYSA-N'', Str ''BSYNRYMUTXBXSQ''],
             [Str ''BRD-4'', Str ''drugA'', Str ''a|b'', Str ''x|y'', Str ''SHORT'',
                Str ''SHORT''],
             [Str ''BRD-2'', Str ''drugB'', Str ''replace_with_na'', Str ''z'',
                Str ''InChI=1S/x'', Str ''ABCDEFGHIJKLMN''],
             [Str ''BRD-3'', Str ''drugC'', Str ''replace_with_na'', Str ''replace_with_na'',
                Str ''InChI=bad'', Str ''None'']]\<rparr>"

definition ex_merged :: dataframe where
  "ex_merged = \<lparr>columns = columns ex_long,
     rows = [[Str ''BRD-1'', Str ''drugA'', Str ''a|b'', Str ''x|y'',
                Str ''BSYNRYMUTXBXSQ-UHFFFAOYSA-N'', Str ''BSYNRYMUTXBXSQ'',
                Num 0, Str ''a'', Str ''x''],
             [Str ''BRD-1'', Str ''drugA'', Str ''a|b'', Str ''x|y'',
                Str ''BSYNRYMUTXBXSQ-UHFFFAOYSA-N'', Str ''BSYNRYMUTXBXSQ'',
                Num 0, Str ''a'', Str ''y''],
             [Str ''BRD-1'', Str ''drugA'', Str ''a|b'', Str ''x|y'',
                Str ''BSYNRYMUTXBXSQ-UHFFFAOYSA-N'', Str ''BSYNRYMUTXBXSQ'',
                Num 0, Str ''b'', Str ''x''],
             [Str ''BRD-1'', Str ''drugA'', Str ''a|b'', Str ''x|y'',
                Str ''BSYNRYMUTXBXSQ-UHFFFAOYSA-N'', Str ''BSYNRYMUTXBXSQ'',
                Num 0, Str ''b'', Str ''y''],
             [Str ''BRD-4'', Str ''drugA'', Str ''a|b'', Str ''x|y'', Str ''SHORT'',
                Str ''SHORT'', Num 1, Str ''a'', Str ''x''],
             [Str ''BRD-4'', Str ''drugA'', Str ''a|b'', Str ''x|y'', Str ''SHORT'',
                Str ''SHORT'', Num 1, Str ''a'', Str ''y''],
             [Str ''BRD-4'', Str ''drugA'', Str ''a|b'', Str ''x|y'', Str ''SHORT'',
                Str ''SHORT'', Num 1, Str ''b'', Str ''x''],
             [Str ''BRD-4'', Str ''drugA'', Str ''a|b'', Str ''x|y'', Str ''SHORT'',
                Str ''SHORT'', Num 1, Str ''b'', Str ''y''],
             [Str ''BRD-2'', Str ''drugB'', Str ''replace_with_na'', Str ''z'',
                Str ''InChI=1S/x'', Str ''ABCDEFGHIJKLMN'', Num 2, Str ''replace_with_na'',
                Str ''z''],
             [Str ''BRD-3'', Str ''drugC'', Str ''replace_with_na'', Str ''replace_with_na'',
                Str ''InChI=bad'', Str ''None'', Num 3, Str ''replace_with_na'',
                Str ''replace_with_na'']]\<rparr>"

text \<open>The table of the split \<^verbatim>\<open>moa\<close> values of the filled sample table.\<close>

definition ex_moa_split :: dataframe where
  "ex_moa_split = \<lparr>columns = [''repurposing_info_index'', ''_'', ''moa_unique''],
     rows = [[Num 0, Num 0, Str ''a''], [Num 0, Num 1, Str ''b''],
             [Num 1, Num 0, Str ''a''], [Num 1, Num 1, Str ''b''],
             [Num 2, Num 0, Str ''replace_with_na''],
             [Num 3, Num 0, Str ''replace_with_na'']]\<rparr>"

section \<open>Basic facts about the operations\<close>

lemma and_then_simps [simp]:
  "and_then (Inl e) f = Inl e"
  "and_then (Inr x) f = f x"
  by (simp_all add: and_then_def)

lemma and_then_eq_Inr: "and_then m f = Inr y \<longleftrightarrow> (\<exists>x. m = Inr x \<and> f x = Inr y)"
  by (cases m) simp_all


lemma get_loc_Some: "get_loc cs c = Some i \<Longrightarrow> i < length cs \<and> cs ! i = c"
  by (induction cs arbitrary: i) (auto split: if_splits)

lemma get_loc_None: "get_loc cs c = None \<longleftrightarrow> c \<notin> set cs"
  by (induction cs) auto


lemma apply_series_Inr:
  "apply_series f xs = Inr ys \<Longrightarrow>
     length ys = length xs \<and> (\<forall>i < length xs. f (xs ! i) = Inr (ys ! i))"
proof (induction xs arbitrary: ys)
  case Nil
  then show ?case by simp
next
  case (Cons x xs)
  then obtain y ys' where y: "f x = Inr y" and ys': "apply_series f xs = Inr ys'"
    and eq: "ys = y # ys'"
    by (auto split: sum.splits)
  from Cons.IH [OF ys'] y eq show ?case
    by (auto simp: nth_Cons split: nat.splits)
qed

subsection \<open>Which exception a step can raise\<close>
















section \<open>The key check\<close>





section \<open>The join\<close>



lemma series_Inr: "series df name = Inr col \<longleftrightarrow>
    (\<exists>i. get_loc (columns df) name = Some i \<and> col = map (\<lambda>r. r ! i) (rows df))"
  by (auto simp: series_def split: option.splits)




section \<open>Reordering the columns and deriving InChIKey14\<close>

lemma those_map_get_loc:
  "set labels \<subseteq> set cols \<Longrightarrow>
     those (map (get_loc cols) labels) = Some (map (\<lambda>c. the (get_loc cols c)) labels)"
proof (induction labels)
  case Nil
  then show ?case by simp
next
  case (Cons a labels)
  then obtain i where "get_loc cols a = Some i"
    using get_loc_None [of cols a] by (cases "get_loc cols a") auto
  with Cons show ?case by simp
qed

lemma set_drop_nth: "i < length xs \<Longrightarrow> insert (xs ! i) (set (drop_nth i xs)) = set xs"
proof -
  assume "i < length xs"
  then have "xs = take i xs @ xs ! i # drop (Suc i) xs"
    by (simp add: id_take_nth_drop)
  then have "set xs = set (take i xs @ xs ! i # drop (Suc i) xs)" by simp
  then show ?thesis by (simp add: drop_nth_def)
qed

lemma get_loc_remove1: "get_loc cs c = Some i \<Longrightarrow> drop_nth i cs = remove1 c cs"
proof (induction cs arbitrary: i)
  case Nil
  then show ?case by simp
next
  case (Cons x xs)
  show ?case
  proof (cases "x = c")
    case True
    with Cons.prems show ?thesis by (simp add: drop_nth_def)
  next
    case False
    with Cons.prems obtain j where j: "get_loc xs c = Some j" and i: "i = Suc j"
      by auto
    from Cons.IH [OF j] False i show ?thesis by (simp add: drop_nth_def)
  qed
qed

lemma col_order_Inr:
  assumes "col_order cols = Inr order"
  shows "order = ''broad_id'' # remove1 ''broad_id'' cols \<and> set order = set cols
         \<and> length order = length cols"
proof -
  from assms obtain i where i: "get_loc cols ''broad_id'' = Some i"
    and o: "order = cols ! i # drop_nth i cols"
    by (auto simp: col_order_def split: option.splits)
  from get_loc_Some [OF i] have lt: "i < length cols" and nth: "cols ! i = ''broad_id''"
    by simp_all
  have "set order = set cols"
    using set_drop_nth [OF lt] o by simp
  moreover have "length order = length cols"
    using lt o by (simp add: drop_nth_def)
  ultimately show ?thesis
    using o nth get_loc_remove1 [OF i] by simp
qed

lemma get_loc_append_in: "c \<in> set xs \<Longrightarrow> get_loc (xs @ ys) c = get_loc xs c"
  by (induction xs) auto

lemma get_loc_append_notin:
  "c \<notin> set xs \<Longrightarrow>
     get_loc (xs @ ys) c = (case get_loc ys c of None \<Rightarrow> None | Some i \<Rightarrow> Some (length xs + i))"
  by (induction xs) (auto split: option.splits)

lemma get_loc_in: "c \<in> set cs \<Longrightarrow> \<exists>i. get_loc cs c = Some i"
  using get_loc_None [of cs c] by (cases "get_loc cs c") auto

text \<open>Selecting columns by label keeps the cell under every selected label.\<close>

lemma loc_columns_Inr:
  assumes "set labels \<subseteq> set (columns df)"
  shows "loc_columns df labels =
           Inr \<lparr>columns = labels,
                rows = map (\<lambda>r. map (\<lambda>c. r ! the (get_loc (columns df) c)) labels) (rows df)\<rparr>"
  using those_map_get_loc [OF assms] by (simp add: loc_columns_def comp_def)

lemma cell_of_select:
  assumes "c \<in> set labels"
  shows "cell_of \<lparr>columns = labels, rows = rs\<rparr>
           (map (\<lambda>c. r ! the (get_loc (columns df) c)) labels) c
         = Some (r ! the (get_loc (columns df) c))"
proof -
  from get_loc_in [OF assms] obtain p where p: "get_loc labels c = Some p" by blast
  from get_loc_Some [OF p] show ?thesis
    by (simp add: cell_of_def p)
qed

lemma cell_of_in: "c \<in> set (columns df) \<Longrightarrow> cell_of df r c = Some (r ! the (get_loc (columns df) c))"
  using get_loc_in [of c "columns df"] by (auto simp: cell_of_def)

lemma cell_of_assign:
  assumes len: "length r = length (columns df)" and c: "c \<in> set (columns df) \<or> c = name"
  shows "cell_of (assign df name vals)
           (case get_loc (columns df) name of None \<Rightarrow> r @ [v] | Some i \<Rightarrow> r[i := v]) c
         = (if c = name then Some v else cell_of df r c)"
proof (cases "get_loc (columns df) name")
  case None
  then have notin: "name \<notin> set (columns df)" by (simp add: get_loc_None)
  show ?thesis
  proof (cases "c = name")
    case True
    with None notin len show ?thesis
      by (simp add: cell_of_def assign_def get_loc_append_notin nth_append)
  next
    case False
    with c have cin: "c \<in> set (columns df)" by simp
    then obtain p where p: "get_loc (columns df) c = Some p" using get_loc_in by blast
    with get_loc_Some [OF p] None len cin False show ?thesis
      by (simp add: cell_of_def assign_def get_loc_append_in nth_append)
  qed
next
  case (Some i)
  from get_loc_Some [OF Some] have i: "i < length (columns df)" "columns df ! i = name"
    by simp_all
  show ?thesis
  proof (cases "c = name")
    case True
    with Some i len show ?thesis by (simp add: cell_of_def assign_def)
  next
    case False
    with c have cin: "c \<in> set (columns df)" by simp
    then obtain p where p: "get_loc (columns df) c = Some p" using get_loc_in by blast
    from get_loc_Some [OF p] i False have "p \<noteq> i" by auto
    with Some p False show ?thesis by (simp add: cell_of_def assign_def)
  qed
qed

lemma rows_assign:
  assumes "length vals = length (rows df)" and "k < length (rows df)"
  shows "length (rows (assign df name vals)) = length (rows df)"
    and "rows (assign df name vals) ! k =
           (case get_loc (columns df) name of
              None \<Rightarrow> (rows df ! k) @ [vals ! k] | Some i \<Rightarrow> (rows df ! k)[i := vals ! k])"
  using assms by (auto simp: assign_def split: option.splits)

lemma columns_assign:
  "columns (assign df name vals) =
     (if name \<in> set (columns df) then columns df else columns df @ [name])"
  using get_loc_None [of "columns df" name]
  by (auto simp: assign_def split: option.splits)

lemma to_inchikey_Inr:
  "to_inchikey I x = Inr y \<Longrightarrow>
     \<exists>s. x = Str s \<and> y = (if startswith s ''InChI'' then I s else Some s)"
  by (auto simp: to_inchikey_def split: cell.splits)

lemma reorder_assign_cells:
  assumes "reorder_assign I df = Inr out"
  shows "length (rows out) = length (rows df)
    \<and> columns out =
        (if ''InChIKey14'' \<in> set (columns df) then ''broad_id'' # remove1 ''broad_id'' (columns df)
         else ''broad_id'' # remove1 ''broad_id'' (columns df) @ [''InChIKey14''])
    \<and> (\<forall>k < length (rows df). \<exists>s.
          cell_of df (rows df ! k) ''InChIKey'' = Some (Str s)
          \<and> cell_of out (rows out ! k) ''InChIKey14'' =
              Some (first14 (if startswith s ''InChI'' then I s else Some s))
          \<and> (\<forall>c \<in> set (columns df). c \<noteq> ''InChIKey14'' \<longrightarrow>
                cell_of out (rows out ! k) c = cell_of df (rows df ! k) c))"
proof -
  from assms obtain order reordered keys converted where
    order: "col_order (columns df) = Inr order" and
    reordered: "loc_columns df order = Inr reordered" and
    keys: "series df ''InChIKey'' = Inr keys" and
    converted: "apply_series (to_inchikey I) keys = Inr converted" and
    out: "out = assign reordered ''InChIKey14'' (map first14 converted)"
    unfolding reorder_assign_def and_then_eq_Inr by auto
  have order_eq: "order = ''broad_id'' # remove1 ''broad_id'' (columns df)"
    using col_order_Inr [OF order] by (rule conjunct1)
  have order_set: "set order = set (columns df)"
    using col_order_Inr [OF order] by blast
  from reordered loc_columns_Inr [of order df] order_set have
    re: "reordered = \<lparr>columns = order,
          rows = map (\<lambda>r. map (\<lambda>c. r ! the (get_loc (columns df) c)) order) (rows df)\<rparr>"
    by simp
  from keys obtain ki where ki: "get_loc (columns df) ''InChIKey'' = Some ki"
    and keys_eq: "keys = map (\<lambda>r. r ! ki) (rows df)"
    by (auto simp: series_def split: option.splits)
  from apply_series_Inr [OF converted] keys_eq have
    len: "length converted = length (rows df)" and
    conv: "\<And>k. k < length (rows df) \<Longrightarrow> to_inchikey I (rows df ! k ! ki) = Inr (converted ! k)"
    by simp_all
  have len_rows: "length (rows out) = length (rows df)"
    unfolding out using rows_assign(1) [of "map first14 converted" reordered] len re
    by (cases "rows df") (simp_all add: assign_def split: option.splits)
  have cols: "columns out =
        (if ''InChIKey14'' \<in> set (columns df) then ''broad_id'' # remove1 ''broad_id'' (columns df)
         else ''broad_id'' # remove1 ''broad_id'' (columns df) @ [''InChIKey14''])"
    unfolding out columns_assign using re order_set order_eq by simp
  have cells: "\<exists>s. cell_of df (rows df ! k) ''InChIKey'' = Some (Str s)
          \<and> cell_of out (rows out ! k) ''InChIKey14'' =
              Some (first14 (if startswith s ''InChI'' then I s else Some s))
          \<and> (\<forall>c \<in> set (columns df). c \<noteq> ''InChIKey14'' \<longrightarrow>
                cell_of out (rows out ! k) c = cell_of df (rows df ! k) c)"
    if k: "k < length (rows df)" for k
  proof -
    from to_inchikey_Inr [OF conv [OF k]] obtain s where
      s: "rows df ! k ! ki = Str s" and
      ck: "converted ! k = (if startswith s ''InChI'' then I s else Some s)" by blast
    let ?r' = "map (\<lambda>c. rows df ! k ! the (get_loc (columns df) c)) order"
    let ?v = "first14 (converted ! k)"
    have rk: "rows reordered ! k = ?r'" using re k by simp
    have vk: "map first14 converted ! k = ?v" using len k by simp
    have lr: "length (map first14 converted) = length (rows reordered)" using len re by simp
    have kr: "k < length (rows reordered)" using re k by simp
    have row: "rows out ! k =
        (case get_loc (columns reordered) ''InChIKey14'' of
           None \<Rightarrow> ?r' @ [?v] | Some i \<Rightarrow> ?r'[i := ?v])"
      unfolding out rows_assign(2) [OF lr kr] rk vk ..
    have lenr: "length ?r' = length (columns reordered)" using re by simp
    have c14: "cell_of out (rows out ! k) ''InChIKey14'' = Some ?v"
      unfolding row unfolding out using cell_of_assign [OF lenr, where c = "''InChIKey14''" and name = "''InChIKey14''" and v = ?v]
      by simp
    have other: "cell_of out (rows out ! k) c = cell_of df (rows df ! k) c"
      if c: "c \<in> set (columns df)" and ne: "c \<noteq> ''InChIKey14''" for c
    proof -
      from c order_set re have cin: "c \<in> set (columns reordered)" by simp
      have "cell_of out (rows out ! k) c = cell_of reordered ?r' c"
        unfolding row unfolding out using cell_of_assign [OF lenr, where c = c and name = "''InChIKey14''" and v = ?v] cin ne
        by simp
      also have "\<dots> = Some (rows df ! k ! the (get_loc (columns df) c))"
        unfolding re using cell_of_select [of c order _ "rows df ! k" df] cin re by simp
      also have "\<dots> = cell_of df (rows df ! k) c"
        using cell_of_in [OF c] by simp
      finally show ?thesis .
    qed
    have "cell_of df (rows df ! k) ''InChIKey'' = Some (Str s)"
      using ki s by (simp add: cell_of_def)
    with c14 ck other show ?thesis by auto
  qed
  from len_rows cols cells show ?thesis by blast
qed

lemma consolidate_Inr:
  "consolidate I drug_df sample_df = Inr out \<longleftrightarrow>
     check_pert_iname drug_df sample_df = Inr ()
     \<and> (\<exists>joined. merge_on Inner ''pert_iname'' drug_df sample_df = Inr joined
           \<and> reorder_assign I joined = Inr out)"
  by (auto simp: consolidate_def and_then_eq_Inr)

lemma reorder_assign_length:
  "reorder_assign I df = Inr out \<Longrightarrow> length (rows out) = length (rows df)"
  using reorder_assign_cells by blast

lemma reorder_assign_columns:
  "reorder_assign I df = Inr out \<Longrightarrow>
     columns out =
        (if ''InChIKey14'' \<in> set (columns df) then ''broad_id'' # remove1 ''broad_id'' (columns df)
         else ''broad_id'' # remove1 ''broad_id'' (columns df) @ [''InChIKey14''])"
  using reorder_assign_cells by blast

lemma reorder_assign_other:
  assumes "reorder_assign I df = Inr out" and "k < length (rows df)"
    and "c \<in> set (columns df)" and "c \<noteq> ''InChIKey14''"
  shows "cell_of out (rows out ! k) c = cell_of df (rows df ! k) c"
  using reorder_assign_cells [OF assms(1)] assms(2-4) by blast

lemma take_min_length: "take (min n (length xs)) xs = take n xs"
  by (simp add: min_def)


lemma reorder_assign_row:
  assumes "reorder_assign I df = Inr out" and "r \<in> set (rows out)"
  shows "\<exists>s. cell_of out r ''InChIKey'' = Some (Str s)
          \<and> cell_of out r ''InChIKey14'' =
              Some (first14 (if startswith s ''InChI'' then I s else Some s))"
proof -
  from assms(2) obtain k where k: "k < length (rows out)" and r: "r = rows out ! k"
    by (auto simp: in_set_conv_nth)
  from reorder_assign_cells [OF assms(1)] k have kdf: "k < length (rows df)" by simp
  from assms(1) have "\<exists>ki. get_loc (columns df) ''InChIKey'' = Some ki"
    unfolding reorder_assign_def and_then_eq_Inr
    by (auto simp: series_def split: option.splits)
  then have cin: "''InChIKey'' \<in> set (columns df)"
    using get_loc_None [of "columns df" "''InChIKey''"] by auto
  from reorder_assign_cells [OF assms(1)] kdf obtain s where
    s: "cell_of df (rows df ! k) ''InChIKey'' = Some (Str s)" and
    v: "cell_of out (rows out ! k) ''InChIKey14'' =
              Some (first14 (if startswith s ''InChI'' then I s else Some s))" and
    o: "\<forall>c \<in> set (columns df). c \<noteq> ''InChIKey14'' \<longrightarrow>
                cell_of out (rows out ! k) c = cell_of df (rows df ! k) c"
    by blast
  from o cin have "cell_of out (rows out ! k) ''InChIKey'' = cell_of df (rows df ! k) ''InChIKey''"
    by simp
  with s v r show ?thesis by simp
qed


text \<open>
  Claim C3, amended.  Every row of the consolidated table has a string in \<^verbatim>\<open>InChIKey\<close>.
  When it starts with \<^verbatim>\<open>InChI\<close>, \<^verbatim>\<open>InChIKey14\<close> holds the first 14 characters of the string
  form of the converted key, which are exactly 14 characters when the conversion returns a
  key of at least 14 characters; otherwise it holds the first 14 characters of the field,
  which is the field itself only when the field has at most 14 characters.
\<close>

theorem InChIKey14_derivation:
  assumes "consolidate I drug_df sample_df = Inr out"
  shows "\<forall>r \<in> set (rows out). \<exists>s. cell_of out r ''InChIKey'' = Some (Str s)
      \<and> (startswith s ''InChI'' \<longrightarrow>
            cell_of out r ''InChIKey14'' = Some (Str (take 14 (py_str (I s))))
            \<and> (\<forall>key. I s = Some key \<and> 14 \<le> length key \<longrightarrow>
                  length (take 14 (py_str (I s))) = 14))
      \<and> (\<not> startswith s ''InChI'' \<longrightarrow>
            cell_of out r ''InChIKey14'' = Some (Str (take 14 s))
            \<and> (length s \<le> 14 \<longrightarrow> cell_of out r ''InChIKey14'' = Some (Str s)))"
proof
  fix r assume r: "r \<in> set (rows out)"
  from assms obtain joined where "reorder_assign I joined = Inr out"
    unfolding consolidate_Inr by blast
  from reorder_assign_row [OF this r] obtain s where
    "cell_of out r ''InChIKey'' = Some (Str s)"
    "cell_of out r ''InChIKey14'' = Some (first14 (if startswith s ''InChI'' then I s else Some s))"
    by blast
  then show "\<exists>s. cell_of out r ''InChIKey'' = Some (Str s)
      \<and> (startswith s ''InChI'' \<longrightarrow>
            cell_of out r ''InChIKey14'' = Some (Str (take 14 (py_str (I s))))
            \<and> (\<forall>key. I s = Some key \<and> 14 \<le> length key \<longrightarrow>
                  length (take 14 (py_str (I s))) = 14))
      \<and> (\<not> startswith s ''InChI'' \<longrightarrow>
            cell_of out r ''InChIKey14'' = Some (Str (take 14 s))
            \<and> (length s \<le> 14 \<longrightarrow> cell_of out r ''InChIKey14'' = Some (Str s)))"
    by (intro exI [of _ s]) (auto simp: first14_def)
qed

theorem InChIKey14_derivation_witness:
  "consolidate ex_inchi ex_drug ex_sample = Inr ex_combined
   \<and> cell_of ex_combined (rows ex_combined ! 1) ''InChIKey14'' = Some (Str ''SHORT'')"
proof -
  have c: "consolidate ex_inchi ex_drug ex_sample = Inr ex_combined"
    by code_simp
  have r: "rows ex_combined ! 1 \<in> set (rows ex_combined)"
    by (simp add: ex_combined_def)
  have k: "cell_of ex_combined (rows ex_combined ! 1) ''InChIKey'' = Some (Str ''SHORT'')"
    by code_simp
  have ns: "\<not> startswith ''SHORT'' ''InChI''"
    by code_simp
  from InChIKey14_derivation [OF c] r obtain s where
    s: "cell_of ex_combined (rows ex_combined ! 1) ''InChIKey'' = Some (Str s)" and
    p: "\<not> startswith s ''InChI'' \<longrightarrow>
          cell_of ex_combined (rows ex_combined ! 1) ''InChIKey14'' = Some (Str (take 14 s))
          \<and> (length s \<le> 14 \<longrightarrow>
               cell_of ex_combined (rows ex_combined ! 1) ''InChIKey14'' = Some (Str s))"
    by blast
  from s k have "s = ''SHORT''" by simp
  with p ns have "cell_of ex_combined (rows ex_combined ! 1) ''InChIKey14'' = Some (Str ''SHORT'')"
    by simp
  with c show ?thesis by simp
qed

theorem InChIKey14_passthrough_counterexample:
  "consolidate ex_inchi ex_drug ex_sample = Inr ex_combined
   \<and> cell_of ex_combined (rows ex_combined ! 0) ''InChIKey''
        = Some (Str ''BSYNRYMUTXBXSQ-UHFFFAOYSA-N'')
   \<and> \<not> startswith ''BSYNRYMUTXBXSQ-UHFFFAOYSA-N'' ''InChI''
   \<and> cell_of ex_combined (rows ex_combined ! 0) ''InChIKey14'' = Some (Str ''BSYNRYMUTXBXSQ'')
   \<and> cell_of ex_combined (rows ex_combined ! 3) ''InChIKey'' = Some (Str ''InChI=bad'')
   \<and> startswith ''InChI=bad'' ''InChI''
   \<and> cell_of ex_combined (rows ex_combined ! 3) ''InChIKey14'' = Some (Str ''None'')"
  by code_simp

text \<open>
  Claim C10.  In every row of the consolidated table the \<^verbatim>\<open>InChIKey14\<close> value has at most
  14 characters and is the first \<open>min 14 (length src)\<close> characters of the string \<open>src\<close> it
  is derived from: the string form of the converted key when the field starts with
  \<^verbatim>\<open>InChI\<close>, the field itself otherwise.
\<close>

theorem InChIKey14_prefix:
  assumes "consolidate I drug_df sample_df = Inr out"
  shows "\<forall>r \<in> set (rows out). \<exists>s v. cell_of out r ''InChIKey'' = Some (Str s)
      \<and> cell_of out r ''InChIKey14'' = Some (Str v)
      \<and> length v \<le> 14
      \<and> v = (let src = (if startswith s ''InChI'' then py_str (I s) else s)
             in take (min 14 (length src)) src)"
proof
  fix r assume r: "r \<in> set (rows out)"
  from assms obtain joined where "reorder_assign I joined = Inr out"
    unfolding consolidate_Inr by blast
  from reorder_assign_row [OF this r] obtain s where
    a: "cell_of out r ''InChIKey'' = Some (Str s)" and
    b: "cell_of out r ''InChIKey14'' = Some (first14 (if startswith s ''InChI'' then I s else Some s))"
    by blast
  let ?v = "take 14 (py_str (if startswith s ''InChI'' then I s else Some s))"
  have "cell_of out r ''InChIKey'' = Some (Str s)
      \<and> cell_of out r ''InChIKey14'' = Some (Str ?v)
      \<and> length ?v \<le> 14
      \<and> ?v = (let src = (if startswith s ''InChI'' then py_str (I s) else s)
             in take (min 14 (length src)) src)"
    using a b by (simp add: first14_def Let_def take_min_length)
  then show "\<exists>s v. cell_of out r ''InChIKey'' = Some (Str s)
      \<and> cell_of out r ''InChIKey14'' = Some (Str v)
      \<and> length v \<le> 14
      \<and> v = (let src = (if startswith s ''InChI'' then py_str (I s) else s)
             in take (min 14 (length src)) src)"
    by blast
qed

theorem InChIKey14_prefix_witness:
  "consolidate ex_inchi ex_drug ex_sample = Inr ex_combined
   \<and> cell_of ex_combined (rows ex_combined ! 2) ''InChIKey14'' = Some (Str ''ABCDEFGHIJKLMN'')"
proof -
  have c: "consolidate ex_inchi ex_drug ex_sample = Inr ex_combined"
    by code_simp
  have r: "rows ex_combined ! 2 \<in> set (rows ex_combined)"
    by (simp add: ex_combined_def)
  have k: "cell_of ex_combined (rows ex_combined ! 2) ''InChIKey'' = Some (Str ''InChI=1S/x'')"
    by code_simp
  have e: "(let src = (if startswith ''InChI=1S/x'' ''InChI''
                       then py_str (ex_inchi ''InChI=1S/x'') else ''InChI=1S/x'')
            in take (min 14 (length src)) src) = ''ABCDEFGHIJKLMN''"
    by code_simp
  from InChIKey14_prefix [OF c] r obtain s v where
    s: "cell_of ex_combined (rows ex_combined ! 2) ''InChIKey'' = Some (Str s)" and
    v: "cell_of ex_combined (rows ex_combined ! 2) ''InChIKey14'' = Some (Str v)" and
    eq: "v = (let src = (if startswith s ''InChI'' then py_str (ex_inchi s) else s)
              in take (min 14 (length src)) src)"
    by blast
  from s k have se: "s = ''InChI=1S/x''" by simp
  have "v = ''ABCDEFGHIJKLMN''" unfolding eq se by (rule e)
  with v c show ?thesis by simp
qed

text \<open>
  Claim C7, amended.  When the join result has no column named \<^verbatim>\<open>InChIKey14\<close>, the
  consolidated table's labels are \<^verbatim>\<open>broad_id\<close>, then the other labels of the join result in
  their order, then \<^verbatim>\<open>InChIKey14\<close>; it has as many rows, and in every row the cell under
  every label of the join result is the cell of the join result.
\<close>

theorem reorder_frame:
  assumes "reorder_assign I joined = Inr out" and "''InChIKey14'' \<notin> set (columns joined)"
  shows "columns out = ''broad_id'' # remove1 ''broad_id'' (columns joined) @ [''InChIKey14'']
     \<and> length (rows out) = length (rows joined)
     \<and> (\<forall>k < length (rows joined). \<forall>c \<in> set (columns joined).
           cell_of out (rows out ! k) c = cell_of joined (rows joined ! k) c)"
proof -
  have cols: "columns out = ''broad_id'' # remove1 ''broad_id'' (columns joined) @ [''InChIKey14'']"
    using reorder_assign_columns [OF assms(1)] assms(2) by simp
  have len: "length (rows out) = length (rows joined)"
    by (rule reorder_assign_length [OF assms(1)])
  have cells: "cell_of out (rows out ! k) c = cell_of joined (rows joined ! k) c"
    if k: "k < length (rows joined)" and c: "c \<in> set (columns joined)" for k c
  proof -
    from c assms(2) have ne: "c \<noteq> ''InChIKey14''" by blast
    show ?thesis by (rule reorder_assign_other [OF assms(1) k c ne])
  qed
  from cols len cells show ?thesis by blast
qed

theorem reorder_frame_witness:
  "reorder_assign ex_inchi ex_joined = Inr ex_combined
   \<and> columns ex_combined =
        [''broad_id'', ''pert_iname'', ''moa'', ''target'', ''InChIKey'', ''InChIKey14'']
   \<and> cell_of ex_combined (rows ex_combined ! 2) ''target'' = Some (Str ''z'')"
proof -
  have c: "reorder_assign ex_inchi ex_joined = Inr ex_combined"
    by code_simp
  have n: "''InChIKey14'' \<notin> set (columns ex_joined)"
    by (simp add: ex_joined_def)
  have k: "2 < length (rows ex_joined)" and t: "''target'' \<in> set (columns ex_joined)"
    by (simp_all add: ex_joined_def)
  have j: "cell_of ex_joined (rows ex_joined ! 2) ''target'' = Some (Str ''z'')"
    by code_simp
  have r: "''broad_id'' # remove1 ''broad_id'' (columns ex_joined) @ [''InChIKey14'']
            = [''broad_id'', ''pert_iname'', ''moa'', ''target'', ''InChIKey'', ''InChIKey14'']"
    by (simp add: ex_joined_def)
  from reorder_frame [OF c n] k t j r
  have "columns ex_combined =
          [''broad_id'', ''pert_iname'', ''moa'', ''target'', ''InChIKey'', ''InChIKey14'']
        \<and> cell_of ex_combined (rows ex_combined ! 2) ''target'' = Some (Str ''z'')"
    by simp
  with c show ?thesis by simp
qed

theorem reorder_frame_counterexample:
  "merge_on Inner ''pert_iname'' ex_drug14 ex_sample14 = Inr ex_joined14
   \<and> reorder_assign ex_inchi ex_joined14 = Inr ex_combined14
   \<and> columns ex_joined14 = [''pert_iname'', ''moa'', ''InChIKey14'', ''broad_id'', ''InChIKey'']
   \<and> columns ex_combined14 = [''broad_id'', ''pert_iname'', ''moa'', ''InChIKey14'', ''InChIKey'']
   \<and> cell_of ex_joined14 (rows ex_joined14 ! 0) ''InChIKey14'' = Some (Str ''old'')
   \<and> cell_of ex_combined14 (rows ex_combined14 ! 0) ''InChIKey14''
        = Some (Str ''BSYNRYMUTXBXSQ'')"
  by code_simp

section \<open>The long table\<close>

subsection \<open>Splitting and stacking\<close>

lemma str_split_nonempty: "str_split sep s \<noteq> []"
  by (induction s) (auto split: list.splits)

lemma enumerate_map: "enumerate n (map f xs) = map (\<lambda>(i, x). (i, f x)) (enumerate n xs)"
  by (induction xs arbitrary: n) auto

lemma filter_enumerate_missing:
  "filter (\<lambda>(j, v). v \<noteq> NaN) (enumerate n (replicate k NaN)) = []"
  by (induction k arbitrary: n) auto

lemma filter_enumerate_padded:
  "filter (\<lambda>(j, v). v \<noteq> NaN) (enumerate n (map Str vs @ replicate k NaN))
     = map (\<lambda>(j, v). (j, Str v)) (enumerate n vs)"
  by (induction vs arbitrary: n) (auto simp: filter_enumerate_missing)

lemma concat_map_enumerate_cong:
  assumes "\<And>i. i < length xs \<Longrightarrow> f (n + i, xs ! i) = g (n + i, xs ! i)"
  shows "concat (map f (enumerate n xs)) = concat (map g (enumerate n xs))"
proof -
  have "map f (enumerate n xs) = map g (enumerate n xs)"
  proof (rule map_cong [OF refl])
    fix p assume "p \<in> set (enumerate n xs)"
    then have "n \<le> fst p" "fst p < length xs + n" "xs ! (fst p - n) = snd p"
      by (simp_all add: in_set_enumerate_eq)
    with assms [of "fst p - n"] show "f p = g p"
      by (cases p) auto
  qed
  then show ?thesis by (rule arg_cong [where f = concat])
qed

lemma stack_frame:
  "stack_reset_index (frame_of_lists ls)
     = concat (map (\<lambda>(i, vs). map (\<lambda>(j, v). [Num (int i), Num (int j), Str v]) (enumerate 0 vs))
         (enumerate 0 ls))"
  by (simp add: stack_reset_index_def frame_of_lists_def enumerate_map comp_def
      case_prod_unfold filter_enumerate_padded [unfolded case_prod_unfold])

lemma apply_series_split_cell:
  assumes "apply_series split_cell col = Inr vss"
  shows "vss = map pipe_values col \<and> (\<forall>c \<in> set col. \<exists>s. c = Str s)"
  using assms
proof (induction col arbitrary: vss)
  case Nil
  then show ?case by simp
next
  case (Cons c col)
  then obtain y ys where y: "split_cell c = Inr y" and ys: "apply_series split_cell col = Inr ys"
    and eq: "vss = y # ys"
    by (auto split: sum.splits)
  from y obtain s where "c = Str s" "y = str_split CHR ''|'' s"
    by (auto simp: split_cell_def split: cell.splits)
  with Cons.IH [OF ys] eq show ?case by (simp add: pipe_values_def)
qed

lemma split_df_Inr:
  assumes "split_df name unique df = Inr sdf"
  shows "\<exists>k. get_loc (columns df) name = Some k
     \<and> (\<forall>r \<in> set (rows df). \<exists>s. r ! k = Str s)
     \<and> columns sdf = [split_col_index, ''_'', unique]
     \<and> rows sdf = concat (map (\<lambda>(i, vs).
            map (\<lambda>(j, v). [Num (int i), Num (int j), Str v]) (enumerate 0 vs))
          (enumerate 0 (map (\<lambda>r. pipe_values (r ! k)) (rows df))))"
proof -
  from assms obtain col vss where col: "series df name = Inr col"
    and vss: "apply_series split_cell col = Inr vss"
    and sdf: "sdf = \<lparr>columns = [split_col_index, ''_'', unique],
                      rows = stack_reset_index (frame_of_lists vss)\<rparr>"
    unfolding split_df_def and_then_eq_Inr by auto
  from col obtain k where k: "get_loc (columns df) name = Some k"
    and col_eq: "col = map (\<lambda>r. r ! k) (rows df)"
    by (auto simp: series_Inr)
  from apply_series_split_cell [OF vss] col_eq have
    l: "vss = map (\<lambda>r. pipe_values (r ! k)) (rows df)" and
    str: "\<forall>r \<in> set (rows df). \<exists>s. r ! k = Str s"
    by (simp_all add: comp_def)
  have "rows sdf = concat (map (\<lambda>(i, vs).
            map (\<lambda>(j, v). [Num (int i), Num (int j), Str v]) (enumerate 0 vs))
          (enumerate 0 (map (\<lambda>r. pipe_values (r ! k)) (rows df))))"
    unfolding sdf l by (simp add: stack_frame)
  with k str sdf show ?thesis by simp
qed

lemma filter_block:
  "filter (\<lambda>r. r ! 0 = Num (int i))
      (concat (map (\<lambda>(i', vs). map (\<lambda>v. [Num (int i'), Str v]) vs) (enumerate n ls)))
   = (if n \<le> i \<and> i < n + length ls then map (\<lambda>v. [Num (int i), Str v]) (ls ! (i - n)) else [])"
proof (induction ls arbitrary: n)
  case Nil
  then show ?case by auto
next
  case (Cons vs ls)
  have here: "filter (\<lambda>r. r ! 0 = Num (int i)) (map (\<lambda>v. [Num (int n), Str v]) vs)
      = (if i = n then map (\<lambda>v. [Num (int i), Str v]) vs else [])"
    by (induction vs) auto
  show ?case
    using Cons.IH [of "Suc n"] here
    by (auto simp: nth_Cons')
qed

subsection \<open>The two left merges\<close>

lemma plain_labels:
  "split_col_index \<noteq> d @ ''_x''" "split_col_index \<noteq> d @ ''_y''"
  "''moa_unique'' \<noteq> d @ ''_x''" "''moa_unique'' \<noteq> d @ ''_y''"
  "''target_unique'' \<noteq> d @ ''_x''" "''target_unique'' \<noteq> d @ ''_y''"
  by (auto simp: split_col_index_def dest: arg_cong [where f = rev])

lemma merge_columns_mem:
  assumes "\<And>d. c \<noteq> d @ ''_x''" and "\<And>d. c \<noteq> d @ ''_y''"
  shows "c \<in> set (merge_columns keys l r) \<longleftrightarrow>
           (c \<in> set l \<and> (c \<in> set keys \<or> c \<notin> set r))
           \<or> (c \<in> set r \<and> c \<notin> set keys \<and> c \<notin> set l)"
  using assms by (auto simp: merge_columns_def)

lemma merge_columns_disjoint:
  assumes "set l \<inter> set (filter (\<lambda>c. c \<notin> set keys) r) = {}"
  shows "merge_columns keys l r = l @ filter (\<lambda>c. c \<notin> set keys) r"
proof -
  have "map (\<lambda>c. if c \<notin> set keys \<and> c \<in> set r then c @ ''_x'' else c) l = l"
    using assms by (intro map_idI) auto
  moreover have "map (\<lambda>c. if c \<in> set l then c @ ''_y'' else c) (filter (\<lambda>c. c \<notin> set keys) r)
      = filter (\<lambda>c. c \<notin> set keys) r"
    using assms by (intro map_idI) auto
  ultimately show ?thesis by (simp add: merge_columns_def)
qed

lemma select_stacked:
  "map (\<lambda>r. [r ! 0, r ! 2])
     (concat (map (\<lambda>(i, vs). map (\<lambda>(j, v). [Num (int i), Num (int j), Str v]) (enumerate 0 vs))
        (enumerate n vss)))
   = concat (map (\<lambda>(i, vs). map (\<lambda>v. [Num (int i), Str v]) vs) (enumerate n vss))"
proof (induction vss arbitrary: n)
  case Nil
  then show ?case by simp
next
  case (Cons vs vss)
  have "map (\<lambda>r. [r ! 0, r ! 2]) (map (\<lambda>(j, v). [Num (int n), Num (int j), Str v]) (enumerate m vs))
      = map (\<lambda>v. [Num (int n), Str v]) vs" for m
    by (induction vs arbitrary: m) auto
  with Cons.IH [of "Suc n"] show ?case by simp
qed

lemma join_row_Left: "ms \<noteq> [] \<Longrightarrow> join_row Left l ms filler = map (\<lambda>m. l @ m) ms"
  by (simp add: join_row_def)

lemma pipe_values_nonempty: "c = Str s \<Longrightarrow> pipe_values c \<noteq> []"
  by (simp add: pipe_values_def str_split_nonempty)

text \<open>The part of a split table that belongs to one row of the combined table.\<close>

lemma part_of_row:
  assumes "i < length rs"
  shows "filter (\<lambda>r. r ! 0 = Num (int i))
           (map (\<lambda>r. [r ! 0, r ! 2])
             (concat (map (\<lambda>(i, vs). map (\<lambda>(j, v). [Num (int i), Num (int j), Str v]) (enumerate 0 vs))
                (enumerate 0 (map (\<lambda>r. pipe_values (r ! k)) rs)))))
         = map (\<lambda>v. [Num (int i), Str v]) (pipe_values (rs ! i ! k))"
  using assms by (simp add: select_stacked filter_block)

lemma concat_map_concat:
  "concat (map g (concat (map f es))) = concat (map (\<lambda>e. concat (map g (f e))) es)"
  by (induction es) auto

lemma merge_left_index_rows:
  assumes str: "\<forall>r \<in> set rs. \<exists>s. r ! km = Str s"
    and part: "rows part = map (\<lambda>r. [r ! 0, r ! 2])
             (concat (map (\<lambda>(i, vs). map (\<lambda>(j, v). [Num (int i), Num (int j), Str v]) (enumerate 0 vs))
                (enumerate 0 (map (\<lambda>r. pipe_values (r ! km)) rs))))"
    and cols: "columns part = [split_col_index, u]"
    and rs: "rows left = rs"
  shows "merge_left_index Left split_col_index left part
     = Inr \<lparr>columns = merge_columns [] (columns left) [split_col_index, u],
            rows = concat (map (\<lambda>(i, l). map (\<lambda>v. l @ [Num (int i), Str v]) (pipe_values (l ! km)))
                     (enumerate 0 rs))\<rparr>"
proof -
  have "concat (map (\<lambda>(i, l). join_row Left l (filter (\<lambda>r. r ! 0 = Num (int i)) (rows part))
                 ((replicate (length (columns part)) NaN)[0 := Num (int i)])) (enumerate 0 rs))
      = concat (map (\<lambda>(i, l). map (\<lambda>v. l @ [Num (int i), Str v]) (pipe_values (l ! km)))
                     (enumerate 0 rs))"
  proof (rule concat_map_enumerate_cong)
    fix i assume i: "i < length rs"
    from str i obtain s where "rs ! i ! km = Str s" by (meson nth_mem)
    then have ne: "pipe_values (rs ! i ! km) \<noteq> []" by (rule pipe_values_nonempty)
    have "filter (\<lambda>r. r ! 0 = Num (int i)) (rows part)
        = map (\<lambda>v. [Num (int i), Str v]) (pipe_values (rs ! i ! km))"
      unfolding part by (rule part_of_row [OF i])
    with ne show "(case (0 + i, rs ! i) of (i, l) \<Rightarrow>
            join_row Left l (filter (\<lambda>r. r ! 0 = Num (int i)) (rows part))
              ((replicate (length (columns part)) NaN)[0 := Num (int i)]))
        = (case (0 + i, rs ! i) of (i, l) \<Rightarrow>
            map (\<lambda>v. l @ [Num (int i), Str v]) (pipe_values (l ! km)))"
      by (simp add: join_row_Left comp_def)
  qed
  then show ?thesis
    by (simp add: merge_left_index_def cols rs)
qed

lemma merge_on_left_rows:
  assumes kl: "get_loc (columns left) split_col_index = Some n"
    and len: "\<forall>r \<in> set rs. length r = n"
    and str: "\<forall>r \<in> set rs. \<exists>s. r ! kt = Str s"
    and left: "rows left = concat (map (\<lambda>(i, l). map (\<lambda>v. l @ [Num (int i), Str v]) (pipe_values (l ! km)))
                     (enumerate 0 rs))"
    and part: "rows part = map (\<lambda>r. [r ! 0, r ! 2])
             (concat (map (\<lambda>(i, vs). map (\<lambda>(j, v). [Num (int i), Num (int j), Str v]) (enumerate 0 vs))
                (enumerate 0 (map (\<lambda>r. pipe_values (r ! kt)) rs))))"
    and cols: "columns part = [split_col_index, u]"
  shows "merge_on Left split_col_index left part
     = Inr \<lparr>columns = merge_columns [split_col_index] (columns left) [split_col_index, u],
            rows = concat (map (\<lambda>(i, l). concat (map (\<lambda>v.
                       map (\<lambda>t. l @ [Num (int i), Str v, Str t]) (pipe_values (l ! kt)))
                     (pipe_values (l ! km))))
                   (enumerate 0 rs))\<rparr>"
proof -
  let ?G = "\<lambda>l'. join_row Left l'
              (map (drop_nth 0) (filter (\<lambda>r. r ! 0 = l' ! n) (rows part)))
              (replicate (length (columns part) - 1) NaN)"
  have G: "?G (rs ! i @ [Num (int i), Str v])
             = map (\<lambda>t. rs ! i @ [Num (int i), Str v, Str t]) (pipe_values (rs ! i ! kt))"
    if i: "i < length rs" for i v
  proof -
    from len i have n: "length (rs ! i) = n" by simp
    from str i obtain s where "rs ! i ! kt = Str s" by (meson nth_mem)
    then have ne: "pipe_values (rs ! i ! kt) \<noteq> []" by (rule pipe_values_nonempty)
    have key: "(rs ! i @ [Num (int i), Str v]) ! n = Num (int i)"
      using n by (simp add: nth_append)
    have "filter (\<lambda>r. r ! 0 = Num (int i)) (rows part)
        = map (\<lambda>v. [Num (int i), Str v]) (pipe_values (rs ! i ! kt))"
      unfolding part by (rule part_of_row [OF i])
    with ne key show ?thesis
      by (simp add: join_row_Left comp_def drop_nth_def)
  qed
  have "concat (map ?G (rows left))
      = concat (map (\<lambda>(i, l). concat (map (\<lambda>v.
                       map (\<lambda>t. l @ [Num (int i), Str v, Str t]) (pipe_values (l ! kt)))
                     (pipe_values (l ! km))))
                   (enumerate 0 rs))"
    unfolding left concat_map_concat
  proof (rule concat_map_enumerate_cong)
    fix i assume i: "i < length rs"
    show "concat (map ?G (case (0 + i, rs ! i) of (i, l) \<Rightarrow>
              map (\<lambda>v. l @ [Num (int i), Str v]) (pipe_values (l ! km))))
        = (case (0 + i, rs ! i) of (i, l) \<Rightarrow> concat (map (\<lambda>v.
              map (\<lambda>t. l @ [Num (int i), Str v, Str t]) (pipe_values (l ! kt)))
            (pipe_values (l ! km))))"
      using G [OF i] by (simp add: comp_def)
  qed
  then show ?thesis
    by (simp add: merge_on_def kl cols)
qed

lemma loc_columns_split_df:
  assumes "columns sdf = [split_col_index, ''_'', unique]"
    and "unique \<noteq> split_col_index" and "unique \<noteq> ''_''"
  shows "loc_columns sdf [split_col_index, unique]
         = Inr \<lparr>columns = [split_col_index, unique], rows = map (\<lambda>r. [r ! 0, r ! 2]) (rows sdf)\<rparr>"
  using assms by (simp add: loc_columns_def split_col_index_def numeral_2_eq_2)

lemma label_facts:
  "''moa_unique'' \<noteq> split_col_index" "''target_unique'' \<noteq> split_col_index"
  "''moa_unique'' \<noteq> ''_''" "''target_unique'' \<noteq> ''_''"
  "''moa_unique'' \<noteq> ''target_unique''"
  by (simp_all add: split_col_index_def)

lemma merge_on_Inr_key:
  "merge_on h key left right = Inr out \<Longrightarrow>
     key \<in> set (columns left) \<and> key \<in> set (columns right)
     \<and> columns out = merge_columns [key] (columns left) (columns right)"
  using get_loc_None [of "columns left" key] get_loc_None [of "columns right" key]
  by (auto simp: merge_on_def split: option.splits)

lemma explode_merge_Inr:
  assumes em: "explode_merge f = Inr merged"
    and rect: "\<forall>r \<in> set (rows f). length r = length (columns f)"
    and mu: "''moa_unique'' \<in> set (columns merged)"
    and tu: "''target_unique'' \<in> set (columns merged)"
  shows "\<exists>km kt. get_loc (columns f) ''moa'' = Some km \<and> get_loc (columns f) ''target'' = Some kt
     \<and> (\<forall>r \<in> set (rows f). \<exists>s. r ! km = Str s) \<and> (\<forall>r \<in> set (rows f). \<exists>s. r ! kt = Str s)
     \<and> split_col_index \<notin> set (columns f) \<and> ''moa_unique'' \<notin> set (columns f)
     \<and> ''target_unique'' \<notin> set (columns f)
     \<and> columns merged = columns f @ [split_col_index, ''moa_unique'', ''target_unique'']
     \<and> rows merged = concat (map (\<lambda>(i, l). concat (map (\<lambda>v.
                       map (\<lambda>t. l @ [Num (int i), Str v, Str t]) (pipe_values (l ! kt)))
                     (pipe_values (l ! km))))
                   (enumerate 0 (rows f)))"
proof -
  from em obtain moa_split_df target_split_df moa_part with_moa target_part where
    ms: "split_df ''moa'' ''moa_unique'' f = Inr moa_split_df" and
    ts: "split_df ''target'' ''target_unique'' f = Inr target_split_df" and
    mp: "loc_columns moa_split_df [split_col_index, ''moa_unique''] = Inr moa_part" and
    wm: "merge_left_index Left split_col_index f moa_part = Inr with_moa" and
    tp: "loc_columns target_split_df [split_col_index, ''target_unique''] = Inr target_part" and
    mg: "merge_on Left split_col_index with_moa target_part = Inr merged"
    unfolding explode_merge_def and_then_eq_Inr by blast
  from split_df_Inr [OF ms] obtain km where
    km: "get_loc (columns f) ''moa'' = Some km" and
    strm: "\<forall>r \<in> set (rows f). \<exists>s. r ! km = Str s" and
    msc: "columns moa_split_df = [split_col_index, ''_'', ''moa_unique'']" and
    msr: "rows moa_split_df = concat (map (\<lambda>(i, vs).
            map (\<lambda>(j, v). [Num (int i), Num (int j), Str v]) (enumerate 0 vs))
          (enumerate 0 (map (\<lambda>r. pipe_values (r ! km)) (rows f))))"
    by blast
  from split_df_Inr [OF ts] obtain kt where
    kt: "get_loc (columns f) ''target'' = Some kt" and
    strt: "\<forall>r \<in> set (rows f). \<exists>s. r ! kt = Str s" and
    tsc: "columns target_split_df = [split_col_index, ''_'', ''target_unique'']" and
    tsr: "rows target_split_df = concat (map (\<lambda>(i, vs).
            map (\<lambda>(j, v). [Num (int i), Num (int j), Str v]) (enumerate 0 vs))
          (enumerate 0 (map (\<lambda>r. pipe_values (r ! kt)) (rows f))))"
    by blast
  from mp loc_columns_split_df [OF msc label_facts(1) label_facts(3)] have
    mpc: "columns moa_part = [split_col_index, ''moa_unique'']" and
    mpr: "rows moa_part = map (\<lambda>r. [r ! 0, r ! 2]) (rows moa_split_df)"
    by auto
  from tp loc_columns_split_df [OF tsc label_facts(2) label_facts(4)] have
    tpc: "columns target_part = [split_col_index, ''target_unique'']" and
    tpr: "rows target_part = map (\<lambda>r. [r ! 0, r ! 2]) (rows target_split_df)"
    by auto
  from wm merge_left_index_rows [OF strm mpr [unfolded msr] mpc refl] have
    wmc: "columns with_moa = merge_columns [] (columns f) [split_col_index, ''moa_unique'']" and
    wmr: "rows with_moa = concat (map (\<lambda>(i, l).
             map (\<lambda>v. l @ [Num (int i), Str v]) (pipe_values (l ! km))) (enumerate 0 (rows f)))"
    by auto
  from merge_on_Inr_key [OF mg] tpc have
    idx_in: "split_col_index \<in> set (columns with_moa)" and
    mgc: "columns merged
            = merge_columns [split_col_index] (columns with_moa) [split_col_index, ''target_unique'']"
    by simp_all
  have idx_notin: "split_col_index \<notin> set (columns f)"
    using idx_in unfolding wmc
    by (subst (asm) merge_columns_mem) (auto simp: plain_labels)
  have mu_with: "''moa_unique'' \<in> set (columns with_moa)"
    using mu unfolding mgc
    by (subst (asm) merge_columns_mem) (auto simp: plain_labels label_facts)
  have mu_notin: "''moa_unique'' \<notin> set (columns f)"
    using mu_with unfolding wmc
    by (subst (asm) merge_columns_mem) (auto simp: plain_labels label_facts)
  have tu_with: "''target_unique'' \<notin> set (columns with_moa)"
    using tu unfolding mgc
    by (subst (asm) merge_columns_mem) (auto simp: plain_labels label_facts)
  have tu_notin: "''target_unique'' \<notin> set (columns f)"
    using tu_with unfolding wmc
    by (subst (asm) merge_columns_mem) (auto simp: plain_labels label_facts)
  have wmc': "columns with_moa = columns f @ [split_col_index, ''moa_unique'']"
    unfolding wmc using idx_notin mu_notin
    by (subst merge_columns_disjoint) auto
  have mgc': "columns merged = columns f @ [split_col_index, ''moa_unique'', ''target_unique'']"
    unfolding mgc wmc' using tu_notin label_facts
    by (subst merge_columns_disjoint) auto
  have kl: "get_loc (columns with_moa) split_col_index = Some (length (columns f))"
    unfolding wmc' using idx_notin by (simp add: get_loc_append_notin)
  from mg merge_on_left_rows [OF kl rect strt wmr tpr [unfolded tsr] tpc] have
    "rows merged = concat (map (\<lambda>(i, l). concat (map (\<lambda>v.
                       map (\<lambda>t. l @ [Num (int i), Str v, Str t]) (pipe_values (l ! kt)))
                     (pipe_values (l ! km))))
                   (enumerate 0 (rows f)))"
    by auto
  with km kt strm strt idx_notin mu_notin tu_notin mgc' show ?thesis by blast
qed

subsection \<open>Filling and restoring the placeholder\<close>

lemma get_loc_mem: "get_loc cs c = Some i \<Longrightarrow> c \<in> set cs"
  using get_loc_None [of cs c] by auto

lemma cell_of_update:
  assumes k: "get_loc (columns df) name = Some k" and cols: "columns out = columns df"
    and len: "length r = length (columns df)"
  shows "cell_of out (r[k := g (r ! k)]) c
           = (if c = name then map_option g (cell_of df r c) else cell_of df r c)"
proof (cases "c = name")
  case True
  from get_loc_Some [OF k] len have "k < length r" by simp
  with True k cols show ?thesis by (simp add: cell_of_def)
next
  case False
  show ?thesis
  proof (cases "get_loc (columns df) c")
    case None
    with False cols show ?thesis by (simp add: cell_of_def)
  next
    case (Some p)
    from get_loc_Some [OF Some] get_loc_Some [OF k] False have "p \<noteq> k" by auto
    with False Some cols show ?thesis by (simp add: cell_of_def)
  qed
qed

lemma fillna_Inr:
  assumes "fillna name v df = Inr out"
  shows "\<exists>k. get_loc (columns df) name = Some k \<and> columns out = columns df
           \<and> rows out = map (\<lambda>r. r[k := fill_cell v (r ! k)]) (rows df)"
  using assms by (auto simp: fillna_def split: option.splits)

lemma restore_column_Inr:
  assumes "restore_column name v df = Inr out"
  shows "\<exists>k. get_loc (columns df) name = Some k \<and> columns out = columns df
           \<and> rows out = map (\<lambda>r. r[k := restore_cell v (r ! k)]) (rows df)"
  using assms by (auto simp: restore_column_def split: option.splits)

text \<open>Filling: the rows are mapped one by one, and only the cells under \<^verbatim>\<open>moa\<close> and
  \<^verbatim>\<open>target\<close> are touched.\<close>

lemma fill_placeholders_Inr:
  assumes "fill_placeholders df = Inr f"
  shows "columns f = columns df \<and> ''moa'' \<in> set (columns df) \<and> ''target'' \<in> set (columns df)
    \<and> (\<exists>F. rows f = map F (rows df) \<and> (\<forall>r. length (F r) = length r)
          \<and> (\<forall>r c. length r = length (columns df) \<longrightarrow>
                cell_of f (F r) c =
                  (if c = ''moa'' \<or> c = ''target''
                   then map_option (fill_cell placeholder) (cell_of df r c)
                   else cell_of df r c)))"
proof -
  from assms obtain f1 where f1: "fillna ''moa'' placeholder df = Inr f1"
    and f2: "fillna ''target'' placeholder f1 = Inr f"
    unfolding fill_placeholders_def and_then_eq_Inr by blast
  from fillna_Inr [OF f1] obtain km where km: "get_loc (columns df) ''moa'' = Some km"
    and c1: "columns f1 = columns df"
    and r1: "rows f1 = map (\<lambda>r. r[km := fill_cell placeholder (r ! km)]) (rows df)"
    by blast
  from fillna_Inr [OF f2] obtain kt where kt: "get_loc (columns f1) ''target'' = Some kt"
    and c2: "columns f = columns f1"
    and r2: "rows f = map (\<lambda>r. r[kt := fill_cell placeholder (r ! kt)]) (rows f1)"
    by blast
  let ?F1 = "\<lambda>r. r[km := fill_cell placeholder (r ! km)]"
  let ?F2 = "\<lambda>r. r[kt := fill_cell placeholder (r ! kt)]"
  have rows: "rows f = map (\<lambda>r. ?F2 (?F1 r)) (rows df)"
    unfolding r2 r1 by simp
  have cells: "cell_of f (?F2 (?F1 r)) c =
                  (if c = ''moa'' \<or> c = ''target''
                   then map_option (fill_cell placeholder) (cell_of df r c)
                   else cell_of df r c)"
    if len: "length r = length (columns df)" for r c
  proof -
    have len1: "length (?F1 r) = length (columns f1)" using len c1 by simp
    have "cell_of f (?F2 (?F1 r)) c
        = (if c = ''target'' then map_option (fill_cell placeholder) (cell_of f1 (?F1 r) c)
           else cell_of f1 (?F1 r) c)"
      by (rule cell_of_update [OF kt c2 len1])
    moreover have "cell_of f1 (?F1 r) c
        = (if c = ''moa'' then map_option (fill_cell placeholder) (cell_of df r c)
           else cell_of df r c)"
      by (rule cell_of_update [OF km c1 len])
    ultimately show ?thesis by auto
  qed
  have "''moa'' \<in> set (columns df)" "''target'' \<in> set (columns df)"
    using get_loc_mem [OF km] get_loc_mem [OF kt] c1 by simp_all
  moreover have "\<forall>r. length (?F2 (?F1 r)) = length r" by simp
  ultimately show ?thesis using c1 c2 rows cells by (intro conjI exI [of _ "\<lambda>r. ?F2 (?F1 r)"]) auto
qed

text \<open>Restoring: the rows are mapped one by one, and only the cells under the four labels
  are touched.\<close>

lemma restore_nulls_Inr:
  assumes "restore_nulls df = Inr out"
  shows "columns out = columns df
    \<and> ''moa'' \<in> set (columns df) \<and> ''moa_unique'' \<in> set (columns df)
    \<and> ''target'' \<in> set (columns df) \<and> ''target_unique'' \<in> set (columns df)
    \<and> (\<exists>R. rows out = map R (rows df) \<and> (\<forall>r. length (R r) = length r)
          \<and> (\<forall>r c. length r = length (columns df) \<longrightarrow>
                cell_of out (R r) c =
                  (if c = ''moa'' \<or> c = ''moa_unique'' \<or> c = ''target'' \<or> c = ''target_unique''
                   then map_option (restore_cell placeholder) (cell_of df r c)
                   else cell_of df r c)))"
proof -
  from assms obtain d1 d2 d3 where
    s1: "restore_column ''moa'' placeholder df = Inr d1" and
    s2: "restore_column ''moa_unique'' placeholder d1 = Inr d2" and
    s3: "restore_column ''target'' placeholder d2 = Inr d3" and
    s4: "restore_column ''target_unique'' placeholder d3 = Inr out"
    unfolding restore_nulls_def and_then_eq_Inr by blast
  from restore_column_Inr [OF s1] obtain k1 where k1: "get_loc (columns df) ''moa'' = Some k1"
    and c1: "columns d1 = columns df"
    and r1: "rows d1 = map (\<lambda>r. r[k1 := restore_cell placeholder (r ! k1)]) (rows df)"
    by blast
  from restore_column_Inr [OF s2] obtain k2 where k2: "get_loc (columns d1) ''moa_unique'' = Some k2"
    and c2: "columns d2 = columns d1"
    and r2: "rows d2 = map (\<lambda>r. r[k2 := restore_cell placeholder (r ! k2)]) (rows d1)"
    by blast
  from restore_column_Inr [OF s3] obtain k3 where k3: "get_loc (columns d2) ''target'' = Some k3"
    and c3: "columns d3 = columns d2"
    and r3: "rows d3 = map (\<lambda>r. r[k3 := restore_cell placeholder (r ! k3)]) (rows d2)"
    by blast
  from restore_column_Inr [OF s4] obtain k4 where k4: "get_loc (columns d3) ''target_unique'' = Some k4"
    and c4: "columns out = columns d3"
    and r4: "rows out = map (\<lambda>r. r[k4 := restore_cell placeholder (r ! k4)]) (rows d3)"
    by blast
  let ?R1 = "\<lambda>r. r[k1 := restore_cell placeholder (r ! k1)]"
  let ?R2 = "\<lambda>r. r[k2 := restore_cell placeholder (r ! k2)]"
  let ?R3 = "\<lambda>r. r[k3 := restore_cell placeholder (r ! k3)]"
  let ?R4 = "\<lambda>r. r[k4 := restore_cell placeholder (r ! k4)]"
  let ?R = "\<lambda>r. ?R4 (?R3 (?R2 (?R1 r)))"
  have rows: "rows out = map ?R (rows df)"
    unfolding r4 r3 r2 r1 by simp
  have cells: "cell_of out (?R r) c =
                  (if c = ''moa'' \<or> c = ''moa_unique'' \<or> c = ''target'' \<or> c = ''target_unique''
                   then map_option (restore_cell placeholder) (cell_of df r c)
                   else cell_of df r c)"
    if len: "length r = length (columns df)" for r c
  proof -
    have l1: "length (?R1 r) = length (columns d1)" using len c1 by simp
    have l2: "length (?R2 (?R1 r)) = length (columns d2)" using len c1 c2 by simp
    have l3: "length (?R3 (?R2 (?R1 r))) = length (columns d3)" using len c1 c2 c3 by simp
    have e4: "cell_of out (?R r) c
        = (if c = ''target_unique''
           then map_option (restore_cell placeholder) (cell_of d3 (?R3 (?R2 (?R1 r))) c)
           else cell_of d3 (?R3 (?R2 (?R1 r))) c)"
      by (rule cell_of_update [OF k4 c4 l3])
    have e3: "cell_of d3 (?R3 (?R2 (?R1 r))) c
        = (if c = ''target''
           then map_option (restore_cell placeholder) (cell_of d2 (?R2 (?R1 r)) c)
           else cell_of d2 (?R2 (?R1 r)) c)"
      by (rule cell_of_update [OF k3 c3 l2])
    have e2: "cell_of d2 (?R2 (?R1 r)) c
        = (if c = ''moa_unique''
           then map_option (restore_cell placeholder) (cell_of d1 (?R1 r) c)
           else cell_of d1 (?R1 r) c)"
      by (rule cell_of_update [OF k2 c2 l1])
    have e1: "cell_of d1 (?R1 r) c
        = (if c = ''moa'' then map_option (restore_cell placeholder) (cell_of df r c)
           else cell_of df r c)"
      by (rule cell_of_update [OF k1 c1 len])
    show ?thesis unfolding e4 e3 e2 e1 by simp
  qed
  have mem: "''moa'' \<in> set (columns df)" "''moa_unique'' \<in> set (columns df)"
    "''target'' \<in> set (columns df)" "''target_unique'' \<in> set (columns df)"
    using get_loc_mem [OF k1] get_loc_mem [OF k2] get_loc_mem [OF k3] get_loc_mem [OF k4]
      c1 c2 c3 by simp_all
  have "\<forall>r. length (?R r) = length r" by simp
  with mem c1 c2 c3 c4 rows cells show ?thesis
    by (intro conjI exI [of _ ?R]) auto
qed

lemma restore_fill: "restore_cell v (fill_cell v c) = restore_cell v c"
  by (simp add: restore_cell_def fill_cell_def)

lemma long_format_Inr:
  "long_format df = Inr long \<longleftrightarrow>
     (\<exists>f merged. fill_placeholders df = Inr f \<and> explode_merge f = Inr merged
        \<and> restore_nulls merged = Inr long)"
  by (auto simp: long_format_def and_then_eq_Inr)

lemma more_label_facts:
  "split_col_index \<noteq> ''moa''" "split_col_index \<noteq> ''target''"
  "split_col_index \<noteq> ''moa_unique''" "split_col_index \<noteq> ''target_unique''"
  "''moa'' \<noteq> ''target''"
  by (simp_all add: split_col_index_def)

text \<open>The cells of a row of the merged table: those of the row of the combined table it
  extends, then the back-reference and the two split values.\<close>

lemma cell_of_merged_row:
  assumes cols: "columns merged = columns f @ [split_col_index, ''moa_unique'', ''target_unique'']"
    and n1: "split_col_index \<notin> set (columns f)" and n2: "''moa_unique'' \<notin> set (columns f)"
    and n3: "''target_unique'' \<notin> set (columns f)"
    and len: "length l = length (columns f)"
  shows "c \<in> set (columns f) \<Longrightarrow> cell_of merged (l @ [a, b, d]) c = cell_of f l c"
    and "cell_of merged (l @ [a, b, d]) split_col_index = Some a"
    and "cell_of merged (l @ [a, b, d]) ''moa_unique'' = Some b"
    and "cell_of merged (l @ [a, b, d]) ''target_unique'' = Some d"
proof -
  show "cell_of merged (l @ [a, b, d]) c = cell_of f l c" if c: "c \<in> set (columns f)"
  proof -
    from get_loc_in [OF c] obtain p where p: "get_loc (columns f) c = Some p" by blast
    from get_loc_Some [OF p] len have "p < length l" by simp
    with p c show ?thesis by (simp add: cell_of_def cols get_loc_append_in nth_append)
  qed
  show "cell_of merged (l @ [a, b, d]) split_col_index = Some a"
    using n1 len by (simp add: cell_of_def cols get_loc_append_notin nth_append)
  show "cell_of merged (l @ [a, b, d]) ''moa_unique'' = Some b"
    using n2 len label_facts by (simp add: cell_of_def cols get_loc_append_notin nth_append)
  show "cell_of merged (l @ [a, b, d]) ''target_unique'' = Some d"
    using n3 len label_facts by (simp add: cell_of_def cols get_loc_append_notin nth_append)
qed

lemma in_concat_enumerate:
  "r \<in> set (concat (map (\<lambda>(i, l). B i l) (enumerate 0 rs)))
     \<longleftrightarrow> (\<exists>i < length rs. r \<in> set (B i (rs ! i)))"
proof
  assume "r \<in> set (concat (map (\<lambda>(i, l). B i l) (enumerate 0 rs)))"
  then obtain p where p: "p \<in> set (enumerate 0 rs)" and r: "r \<in> set (case p of (i, l) \<Rightarrow> B i l)"
    by auto
  from p have "fst p < length rs" "rs ! fst p = snd p"
    by (simp_all add: in_set_enumerate_eq)
  with r show "\<exists>i < length rs. r \<in> set (B i (rs ! i))"
    by (cases p) auto
next
  assume "\<exists>i < length rs. r \<in> set (B i (rs ! i))"
  then obtain i where i: "i < length rs" and r: "r \<in> set (B i (rs ! i))" by blast
  from i have "(i, rs ! i) \<in> set (enumerate 0 rs)"
    by (simp add: in_set_enumerate_eq)
  with r show "r \<in> set (concat (map (\<lambda>(i, l). B i l) (enumerate 0 rs)))"
    by (auto intro!: bexI [of _ "(i, rs ! i)"])
qed

lemma long_format_parts:
  assumes rect: "\<forall>r \<in> set (rows df). length r = length (columns df)"
    and lf: "long_format df = Inr long"
  shows "\<exists>f merged km kt F R.
      fill_placeholders df = Inr f \<and> explode_merge f = Inr merged
    \<and> restore_nulls merged = Inr long
    \<and> columns f = columns df \<and> rows f = map F (rows df) \<and> (\<forall>r. length (F r) = length r)
    \<and> (\<forall>r c. length r = length (columns df) \<longrightarrow>
          cell_of f (F r) c =
            (if c = ''moa'' \<or> c = ''target''
             then map_option (fill_cell placeholder) (cell_of df r c) else cell_of df r c))
    \<and> get_loc (columns df) ''moa'' = Some km \<and> get_loc (columns df) ''target'' = Some kt
    \<and> split_col_index \<notin> set (columns df) \<and> ''moa_unique'' \<notin> set (columns df)
    \<and> ''target_unique'' \<notin> set (columns df)
    \<and> columns merged = columns df @ [split_col_index, ''moa_unique'', ''target_unique'']
    \<and> columns long = columns df @ [split_col_index, ''moa_unique'', ''target_unique'']
    \<and> rows merged = concat (map (\<lambda>(i, l). concat (map (\<lambda>v.
                       map (\<lambda>t. l @ [Num (int i), Str v, Str t]) (pipe_values (l ! kt)))
                     (pipe_values (l ! km))))
                   (enumerate 0 (rows f)))
    \<and> rows long = map R (rows merged) \<and> (\<forall>r. length (R r) = length r)
    \<and> (\<forall>r c. length r = length (columns merged) \<longrightarrow>
          cell_of long (R r) c =
            (if c = ''moa'' \<or> c = ''moa_unique'' \<or> c = ''target'' \<or> c = ''target_unique''
             then map_option (restore_cell placeholder) (cell_of merged r c)
             else cell_of merged r c))"
proof -
  from lf obtain f merged where fp: "fill_placeholders df = Inr f"
    and em: "explode_merge f = Inr merged" and rn: "restore_nulls merged = Inr long"
    unfolding long_format_Inr by blast
  from fill_placeholders_Inr [OF fp] obtain F where
    cf: "columns f = columns df" and rf: "rows f = map F (rows df)"
    and lF: "\<forall>r. length (F r) = length r"
    and cF: "\<forall>r c. length r = length (columns df) \<longrightarrow>
          cell_of f (F r) c =
            (if c = ''moa'' \<or> c = ''target''
             then map_option (fill_cell placeholder) (cell_of df r c) else cell_of df r c)"
    by blast
  from restore_nulls_Inr [OF rn] obtain R where
    cl: "columns long = columns merged"
    and mu: "''moa_unique'' \<in> set (columns merged)"
    and tu: "''target_unique'' \<in> set (columns merged)"
    and rl: "rows long = map R (rows merged)" and lR: "\<forall>r. length (R r) = length r"
    and cR: "\<forall>r c. length r = length (columns merged) \<longrightarrow>
          cell_of long (R r) c =
            (if c = ''moa'' \<or> c = ''moa_unique'' \<or> c = ''target'' \<or> c = ''target_unique''
             then map_option (restore_cell placeholder) (cell_of merged r c)
             else cell_of merged r c)"
    by blast
  have rectf: "\<forall>r \<in> set (rows f). length r = length (columns f)"
    using rect lF cf rf by auto
  from explode_merge_Inr [OF em rectf mu tu] obtain km kt where
    km: "get_loc (columns f) ''moa'' = Some km" and kt: "get_loc (columns f) ''target'' = Some kt"
    and n1: "split_col_index \<notin> set (columns f)" and n2: "''moa_unique'' \<notin> set (columns f)"
    and n3: "''target_unique'' \<notin> set (columns f)"
    and cm: "columns merged = columns f @ [split_col_index, ''moa_unique'', ''target_unique'']"
    and rm: "rows merged = concat (map (\<lambda>(i, l). concat (map (\<lambda>v.
                       map (\<lambda>t. l @ [Num (int i), Str v, Str t]) (pipe_values (l ! kt)))
                     (pipe_values (l ! km))))
                   (enumerate 0 (rows f)))"
    by blast
  show ?thesis
    apply (rule exI [of _ f], rule exI [of _ merged], rule exI [of _ km], rule exI [of _ kt],
        rule exI [of _ F], rule exI [of _ R])
    using fp em rn cf rf lF cF km kt n1 n2 n3 cm cl rm rl lR cR
    by simp
qed

lemma long_row_cells:
  assumes rect: "\<forall>r \<in> set (rows df). length r = length (columns df)"
    and lf: "long_format df = Inr long"
    and r: "r \<in> set (rows long)"
  shows "\<exists>i m0 t0 v t. i < length (rows df)
    \<and> cell_of df (rows df ! i) ''moa'' = Some m0
    \<and> cell_of df (rows df ! i) ''target'' = Some t0
    \<and> v \<in> set (pipe_values (fill_cell placeholder m0))
    \<and> t \<in> set (pipe_values (fill_cell placeholder t0))
    \<and> cell_of long r split_col_index = Some (Num (int i))
    \<and> cell_of long r ''moa_unique'' = Some (restore_cell placeholder (Str v))
    \<and> cell_of long r ''target_unique'' = Some (restore_cell placeholder (Str t))
    \<and> (\<forall>c \<in> set (columns df). cell_of long r c =
          (if c = ''moa'' \<or> c = ''target''
           then map_option (restore_cell placeholder) (cell_of df (rows df ! i) c)
           else cell_of df (rows df ! i) c))"
proof -
  from long_format_parts [OF rect lf] obtain f merged km kt F R where
    cf: "columns f = columns df" and rf: "rows f = map F (rows df)"
    and lF: "\<forall>r. length (F r) = length r"
    and cF: "\<forall>r c. length r = length (columns df) \<longrightarrow>
          cell_of f (F r) c =
            (if c = ''moa'' \<or> c = ''target''
             then map_option (fill_cell placeholder) (cell_of df r c) else cell_of df r c)"
    and km: "get_loc (columns df) ''moa'' = Some km"
    and kt: "get_loc (columns df) ''target'' = Some kt"
    and n1: "split_col_index \<notin> set (columns df)" and n2: "''moa_unique'' \<notin> set (columns df)"
    and n3: "''target_unique'' \<notin> set (columns df)"
    and cm: "columns merged = columns df @ [split_col_index, ''moa_unique'', ''target_unique'']"
    and rm: "rows merged = concat (map (\<lambda>(i, l). concat (map (\<lambda>v.
                       map (\<lambda>t. l @ [Num (int i), Str v, Str t]) (pipe_values (l ! kt)))
                     (pipe_values (l ! km))))
                   (enumerate 0 (rows f)))"
    and rl: "rows long = map R (rows merged)"
    and cR: "\<forall>r c. length r = length (columns merged) \<longrightarrow>
          cell_of long (R r) c =
            (if c = ''moa'' \<or> c = ''moa_unique'' \<or> c = ''target'' \<or> c = ''target_unique''
             then map_option (restore_cell placeholder) (cell_of merged r c)
             else cell_of merged r c)"
    by (elim exE conjE)
  from r rl obtain r0 where r0: "r0 \<in> set (rows merged)" and rr: "r = R r0" by auto
  from r0 obtain i where i: "i < length (rows f)"
    and in_block: "r0 \<in> set (concat (map (\<lambda>v.
                       map (\<lambda>t. rows f ! i @ [Num (int i), Str v, Str t])
                         (pipe_values (rows f ! i ! kt)))
                     (pipe_values (rows f ! i ! km))))"
    unfolding rm in_concat_enumerate by blast
  then obtain v t where v: "v \<in> set (pipe_values (rows f ! i ! km))"
    and t: "t \<in> set (pipe_values (rows f ! i ! kt))"
    and r0_eq: "r0 = rows f ! i @ [Num (int i), Str v, Str t]"
    by auto
  let ?l = "rows df ! i"
  from i rf have idf: "i < length (rows df)" by simp
  with rf have fi: "rows f ! i = F ?l" by simp
  from rect idf have len: "length ?l = length (columns df)" by simp
  with lF have lenF: "length (F ?l) = length (columns f)" by (simp add: cf)
  have lenr0: "length r0 = length (columns merged)"
    unfolding r0_eq fi cm using lenF cf by simp
  have cm': "columns merged = columns f @ [split_col_index, ''moa_unique'', ''target_unique'']"
    using cm cf by simp
  have n': "split_col_index \<notin> set (columns f)" "''moa_unique'' \<notin> set (columns f)"
    "''target_unique'' \<notin> set (columns f)"
    using n1 n2 n3 cf by simp_all
  have mrow1: "cell_of merged r0 c = cell_of f (F ?l) c" if "c \<in> set (columns f)" for c
    unfolding r0_eq fi using that by (rule cell_of_merged_row(1) [OF cm' n' lenF])
  have mrow2: "cell_of merged r0 split_col_index = Some (Num (int i))"
    unfolding r0_eq fi by (rule cell_of_merged_row(2) [OF cm' n' lenF])
  have mrow3: "cell_of merged r0 ''moa_unique'' = Some (Str v)"
    unfolding r0_eq fi by (rule cell_of_merged_row(3) [OF cm' n' lenF])
  have mrow4: "cell_of merged r0 ''target_unique'' = Some (Str t)"
    unfolding r0_eq fi by (rule cell_of_merged_row(4) [OF cm' n' lenF])
  have moa_df: "cell_of df ?l ''moa'' = Some (?l ! km)"
    and tgt_df: "cell_of df ?l ''target'' = Some (?l ! kt)"
    using km kt by (simp_all add: cell_of_def)
  have "cell_of f (F ?l) ''moa'' = Some (F ?l ! km)"
    using km cf by (simp add: cell_of_def)
  with cF len moa_df have fm: "F ?l ! km = fill_cell placeholder (?l ! km)" by simp
  have "cell_of f (F ?l) ''target'' = Some (F ?l ! kt)"
    using kt cf by (simp add: cell_of_def)
  with cF len tgt_df have ft: "F ?l ! kt = fill_cell placeholder (?l ! kt)" by simp
  have v': "v \<in> set (pipe_values (fill_cell placeholder (?l ! km)))"
    using v fi fm by simp
  have t': "t \<in> set (pipe_values (fill_cell placeholder (?l ! kt)))"
    using t fi ft by simp
  have c_idx: "cell_of long r split_col_index = Some (Num (int i))"
    unfolding rr using cR lenr0 mrow2 more_label_facts by simp
  have c_mu: "cell_of long r ''moa_unique'' = Some (restore_cell placeholder (Str v))"
    unfolding rr using cR lenr0 mrow3 by simp
  have c_tu: "cell_of long r ''target_unique'' = Some (restore_cell placeholder (Str t))"
    unfolding rr using cR lenr0 mrow4 by simp
  have others: "cell_of long r c =
          (if c = ''moa'' \<or> c = ''target''
           then map_option (restore_cell placeholder) (cell_of df ?l c)
           else cell_of df ?l c)" if c: "c \<in> set (columns df)" for c
  proof -
    from c n2 n3 have ne: "c \<noteq> ''moa_unique''" "c \<noteq> ''target_unique''" by auto
    from c cf have cin: "c \<in> set (columns f)" by simp
    have m: "cell_of merged r0 c = cell_of f (F ?l) c"
      by (rule mrow1 [OF cin])
    have f: "cell_of f (F ?l) c =
            (if c = ''moa'' \<or> c = ''target''
             then map_option (fill_cell placeholder) (cell_of df ?l c) else cell_of df ?l c)"
      using cF len by simp
    have "cell_of long r c =
            (if c = ''moa'' \<or> c = ''target''
             then map_option (restore_cell placeholder) (cell_of merged r0 c)
             else cell_of merged r0 c)"
      unfolding rr using cR lenr0 ne by simp
    then show ?thesis
      unfolding m f by (simp add: option.map_comp comp_def restore_fill)
  qed
  from idf moa_df tgt_df v' t' c_idx c_mu c_tu others show ?thesis by blast
qed

subsection \<open>The claims about the long table\<close>

text \<open>
  Claim C5.  In each split table (\<^verbatim>\<open>moa_split_df\<close> and \<^verbatim>\<open>target_split_df\<close>, made from the
  combined table as it is at line 118, with the placeholders filled in) every row holds in
  \<^verbatim>\<open>repurposing_info_index\<close> the index of a row of the combined table, and in
  \<^verbatim>\<open>moa_unique\<close> (respectively \<^verbatim>\<open>target_unique\<close>) one of the strings obtained by splitting
  that row's \<^verbatim>\<open>moa\<close> (respectively \<^verbatim>\<open>target\<close>) field on the pipe character.
\<close>

theorem split_back_reference:
  assumes sd: "split_df name unique df = Inr sdf"
    and which: "(name, unique) = (''moa'', ''moa_unique'')
                \<or> (name, unique) = (''target'', ''target_unique'')"
  shows "\<forall>r \<in> set (rows sdf). \<exists>i s v. i < length (rows df)
       \<and> cell_of sdf r split_col_index = Some (Num (int i))
       \<and> cell_of sdf r unique = Some (Str v)
       \<and> cell_of df (rows df ! i) name = Some (Str s)
       \<and> v \<in> set (str_split CHR ''|'' s)"
proof
  fix r assume r: "r \<in> set (rows sdf)"
  from which have u: "unique \<noteq> split_col_index" "unique \<noteq> ''_''"
    by (auto simp: split_col_index_def)
  from split_df_Inr [OF sd] obtain k where
    k: "get_loc (columns df) name = Some k" and
    str: "\<forall>r \<in> set (rows df). \<exists>s. r ! k = Str s" and
    cols: "columns sdf = [split_col_index, ''_'', unique]" and
    rows: "rows sdf = concat (map (\<lambda>(i, vs).
            map (\<lambda>(j, v). [Num (int i), Num (int j), Str v]) (enumerate 0 vs))
          (enumerate 0 (map (\<lambda>r. pipe_values (r ! k)) (rows df))))"
    by blast
  from r have "\<exists>i < length (map (\<lambda>r. pipe_values (r ! k)) (rows df)).
      r \<in> set (map (\<lambda>(j, v). [Num (int i), Num (int j), Str v])
                (enumerate 0 (map (\<lambda>r. pipe_values (r ! k)) (rows df) ! i)))"
    unfolding rows
      in_concat_enumerate [where B = "\<lambda>i vs. map (\<lambda>(j, v). [Num (int i), Num (int j), Str v])
        (enumerate 0 vs)"] .
  then obtain i where i0: "i < length (map (\<lambda>r. pipe_values (r ! k)) (rows df))"
    and rin0: "r \<in> set (map (\<lambda>(j, v). [Num (int i), Num (int j), Str v])
                (enumerate 0 (map (\<lambda>r. pipe_values (r ! k)) (rows df) ! i)))"
    by blast
  from i0 have i: "i < length (rows df)" by simp
  from rin0 i have rin: "r \<in> set (map (\<lambda>(j, v). [Num (int i), Num (int j), Str v])
                (enumerate 0 (pipe_values (rows df ! i ! k))))"
    by simp
  then obtain j v where req: "r = [Num (int i), Num (int j), Str v]"
    and jv: "(j, v) \<in> set (enumerate 0 (pipe_values (rows df ! i ! k)))"
    by auto
  from jv have v: "v \<in> set (pipe_values (rows df ! i ! k))"
    by (auto simp: in_set_enumerate_eq)
  from str i obtain s where s: "rows df ! i ! k = Str s" by (meson nth_mem)
  with v have vs: "v \<in> set (str_split CHR ''|'' s)" by (simp add: pipe_values_def)
  have c0: "cell_of sdf r split_col_index = Some (Num (int i))"
    by (simp add: cell_of_def cols req)
  have c2: "cell_of sdf r unique = Some (Str v)"
    using u by (simp add: cell_of_def cols req)
  have cn: "cell_of df (rows df ! i) name = Some (Str s)"
    using k s by (simp add: cell_of_def)
  from i c0 c2 cn vs
  show "\<exists>i s v. i < length (rows df)
       \<and> cell_of sdf r split_col_index = Some (Num (int i))
       \<and> cell_of sdf r unique = Some (Str v)
       \<and> cell_of df (rows df ! i) name = Some (Str s)
       \<and> v \<in> set (str_split CHR ''|'' s)"
    by blast
qed

theorem split_back_reference_witness:
  "split_df ''moa'' ''moa_unique'' ex_filled = Inr ex_moa_split
   \<and> cell_of ex_filled (rows ex_filled ! 0) ''moa'' = Some (Str ''a|b'')
   \<and> ''b'' \<in> set (str_split CHR ''|'' ''a|b'')"
proof -
  have sd: "split_df ''moa'' ''moa_unique'' ex_filled = Inr ex_moa_split"
    by code_simp
  have which: "(''moa'', ''moa_unique'') = (''moa'', ''moa_unique'')
                \<or> (''moa'', ''moa_unique'') = (''target'', ''target_unique'')"
    by simp
  have r: "[Num 0, Num 1, Str ''b''] \<in> set (rows ex_moa_split)"
    by (simp add: ex_moa_split_def)
  have c0: "cell_of ex_moa_split [Num 0, Num 1, Str ''b''] split_col_index = Some (Num 0)"
    by code_simp
  have c2: "cell_of ex_moa_split [Num 0, Num 1, Str ''b''] ''moa_unique'' = Some (Str ''b'')"
    by code_simp
  have cm: "cell_of ex_filled (rows ex_filled ! 0) ''moa'' = Some (Str ''a|b'')"
    by code_simp
  from split_back_reference [OF sd which] r obtain i s v where
    "cell_of ex_moa_split [Num 0, Num 1, Str ''b''] split_col_index = Some (Num (int i))"
    "cell_of ex_moa_split [Num 0, Num 1, Str ''b''] ''moa_unique'' = Some (Str v)"
    "cell_of ex_filled (rows ex_filled ! i) ''moa'' = Some (Str s)"
    "v \<in> set (str_split CHR ''|'' s)"
    by blast
  with c0 c2 cm have "''b'' \<in> set (str_split CHR ''|'' ''a|b'')"
    by simp
  with sd cm show ?thesis by simp
qed


lemma wf_df_rect: "wf_df df \<Longrightarrow> \<forall>r \<in> set (rows df). length r = length (columns df)"
  by (simp add: wf_df_def list_all_iff)

lemma split_placeholder: "str_split CHR ''|'' placeholder = [placeholder]"
  by (simp add: placeholder_def)






lemma merged_rows:
  assumes em: "explode_merge f = Inr merged"
    and rect: "\<forall>r \<in> set (rows f). length r = length (columns f)"
    and mu: "''moa_unique'' \<in> set (columns merged)"
    and tu: "''target_unique'' \<in> set (columns merged)"
    and r: "r \<in> set (rows merged)"
  shows "length r = length (columns merged)
    \<and> (\<exists>i < length (rows f). cell_of merged r split_col_index = Some (Num (int i))
          \<and> (\<forall>c \<in> set (columns f). cell_of merged r c = cell_of f (rows f ! i) c))"
proof -
  from explode_merge_Inr [OF em rect mu tu] obtain km kt where
    n: "split_col_index \<notin> set (columns f)" "''moa_unique'' \<notin> set (columns f)"
      "''target_unique'' \<notin> set (columns f)"
    and cm: "columns merged = columns f @ [split_col_index, ''moa_unique'', ''target_unique'']"
    and rm: "rows merged = concat (map (\<lambda>(i, l). concat (map (\<lambda>v.
                       map (\<lambda>t. l @ [Num (int i), Str v, Str t]) (pipe_values (l ! kt)))
                     (pipe_values (l ! km))))
                   (enumerate 0 (rows f)))"
    by blast
  from r obtain i where i: "i < length (rows f)"
    and in_block: "r \<in> set (concat (map (\<lambda>v.
                       map (\<lambda>t. rows f ! i @ [Num (int i), Str v, Str t])
                         (pipe_values (rows f ! i ! kt)))
                     (pipe_values (rows f ! i ! km))))"
    unfolding rm in_concat_enumerate by blast
  then obtain v t where r_eq: "r = rows f ! i @ [Num (int i), Str v, Str t]"
    by auto
  from rect i have len: "length (rows f ! i) = length (columns f)" by simp
  have "length r = length (columns merged)"
    unfolding r_eq cm using len by simp
  moreover have "cell_of merged r split_col_index = Some (Num (int i))"
    unfolding r_eq by (rule cell_of_merged_row(2) [OF cm n len])
  moreover have "\<forall>c \<in> set (columns f). cell_of merged r c = cell_of f (rows f ! i) c"
    unfolding r_eq using cell_of_merged_row(1) [OF cm n len] by blast
  ultimately show ?thesis using i by blast
qed

lemma map_option_restore:
  "map_option (restore_cell v) x = (if x = Some (Str v) then Some NaN else x)"
  by (cases x) (auto simp: restore_cell_def)





text \<open>
  Claim C9.  The restoration step keeps the rows in place and replaces by a missing value
  exactly the cells under \<^verbatim>\<open>moa\<close>, \<^verbatim>\<open>moa_unique\<close>, \<^verbatim>\<open>target\<close> and \<^verbatim>\<open>target_unique\<close> that equal
  the placeholder string.  This includes the cells whose value in the consolidated table
  was that string to begin with: for such a row the long table has a missing value in the
  column and in its unique column.
\<close>

theorem placeholder_collision:
  assumes wf: "wf_df combined_df"
    and fp: "fill_placeholders combined_df = Inr filled"
    and em: "explode_merge filled = Inr merged"
    and rn: "restore_nulls merged = Inr long"
  shows "length (rows long) = length (rows merged)
    \<and> (\<forall>k < length (rows merged). \<forall>c. cell_of long (rows long ! k) c =
          (if (c = ''moa'' \<or> c = ''moa_unique'' \<or> c = ''target'' \<or> c = ''target_unique'')
              \<and> cell_of merged (rows merged ! k) c = Some (Str placeholder)
           then Some NaN else cell_of merged (rows merged ! k) c))
    \<and> (\<forall>r \<in> set (rows long). \<exists>i < length (rows combined_df).
          cell_of long r split_col_index = Some (Num (int i))
          \<and> (cell_of combined_df (rows combined_df ! i) ''moa'' = Some (Str placeholder) \<longrightarrow>
                cell_of long r ''moa'' = Some NaN \<and> cell_of long r ''moa_unique'' = Some NaN)
          \<and> (cell_of combined_df (rows combined_df ! i) ''target'' = Some (Str placeholder) \<longrightarrow>
                cell_of long r ''target'' = Some NaN \<and> cell_of long r ''target_unique'' = Some NaN))"
proof -
  note rect = wf_df_rect [OF wf]
  have lf: "long_format combined_df = Inr long"
    unfolding long_format_Inr using fp em rn by blast
  from fill_placeholders_Inr [OF fp] obtain F where
    cf: "columns filled = columns combined_df" and rf: "rows filled = map F (rows combined_df)"
    and lF: "\<forall>r. length (F r) = length r"
    by blast
  have rectf: "\<forall>r \<in> set (rows filled). length r = length (columns filled)"
    using rect lF cf rf by auto
  from restore_nulls_Inr [OF rn] obtain R where
    mu: "''moa_unique'' \<in> set (columns merged)"
    and tu: "''target_unique'' \<in> set (columns merged)"
    and rl: "rows long = map R (rows merged)"
    and cR: "\<forall>r c. length r = length (columns merged) \<longrightarrow>
          cell_of long (R r) c =
            (if c = ''moa'' \<or> c = ''moa_unique'' \<or> c = ''target'' \<or> c = ''target_unique''
             then map_option (restore_cell placeholder) (cell_of merged r c)
             else cell_of merged r c)"
    by blast
  have len: "length (rows long) = length (rows merged)"
    using rl by simp
  have step: "cell_of long (rows long ! k) c =
          (if (c = ''moa'' \<or> c = ''moa_unique'' \<or> c = ''target'' \<or> c = ''target_unique'')
              \<and> cell_of merged (rows merged ! k) c = Some (Str placeholder)
           then Some NaN else cell_of merged (rows merged ! k) c)"
    if k: "k < length (rows merged)" for k c
  proof -
    from k have "rows merged ! k \<in> set (rows merged)" by simp
    from merged_rows [OF em rectf mu tu this]
    have "length (rows merged ! k) = length (columns merged)" by blast
    with cR have "cell_of long (R (rows merged ! k)) c =
            (if c = ''moa'' \<or> c = ''moa_unique'' \<or> c = ''target'' \<or> c = ''target_unique''
             then map_option (restore_cell placeholder) (cell_of merged (rows merged ! k) c)
             else cell_of merged (rows merged ! k) c)"
      by blast
    with k rl show ?thesis by (auto simp: map_option_restore restore_cell_def)
  qed
  have pipeline: "\<exists>i < length (rows combined_df).
          cell_of long r split_col_index = Some (Num (int i))
          \<and> (cell_of combined_df (rows combined_df ! i) ''moa'' = Some (Str placeholder) \<longrightarrow>
                cell_of long r ''moa'' = Some NaN \<and> cell_of long r ''moa_unique'' = Some NaN)
          \<and> (cell_of combined_df (rows combined_df ! i) ''target'' = Some (Str placeholder) \<longrightarrow>
                cell_of long r ''target'' = Some NaN \<and> cell_of long r ''target_unique'' = Some NaN)"
    if r: "r \<in> set (rows long)" for r
  proof -
    from long_row_cells [OF rect lf r] obtain i m0 t0 v t where
      i: "i < length (rows combined_df)" and
      m0: "cell_of combined_df (rows combined_df ! i) ''moa'' = Some m0" and
      t0: "cell_of combined_df (rows combined_df ! i) ''target'' = Some t0" and
      v: "v \<in> set (pipe_values (fill_cell placeholder m0))" and
      t: "t \<in> set (pipe_values (fill_cell placeholder t0))" and
      idx: "cell_of long r split_col_index = Some (Num (int i))" and
      mu: "cell_of long r ''moa_unique'' = Some (restore_cell placeholder (Str v))" and
      tu: "cell_of long r ''target_unique'' = Some (restore_cell placeholder (Str t))" and
      others: "\<forall>c \<in> set (columns combined_df). cell_of long r c =
          (if c = ''moa'' \<or> c = ''target''
           then map_option (restore_cell placeholder) (cell_of combined_df (rows combined_df ! i) c)
           else cell_of combined_df (rows combined_df ! i) c)"
      by blast
    have min: "''moa'' \<in> set (columns combined_df)"
      using m0 get_loc_None [of "columns combined_df" "''moa''"] by (auto simp: cell_of_def)
    have tin: "''target'' \<in> set (columns combined_df)"
      using t0 get_loc_None [of "columns combined_df" "''target''"] by (auto simp: cell_of_def)
    from others min m0 have lm: "cell_of long r ''moa'' = Some (restore_cell placeholder m0)"
      by simp
    from others tin t0 have lt: "cell_of long r ''target'' = Some (restore_cell placeholder t0)"
      by simp
    have a: "cell_of long r ''moa'' = Some NaN \<and> cell_of long r ''moa_unique'' = Some NaN"
      if "m0 = Str placeholder"
      using that v lm mu
      by (simp add: fill_cell_def pipe_values_def split_placeholder restore_cell_def)
    have b: "cell_of long r ''target'' = Some NaN \<and> cell_of long r ''target_unique'' = Some NaN"
      if "t0 = Str placeholder"
      using that t lt tu
      by (simp add: fill_cell_def pipe_values_def split_placeholder restore_cell_def)
    from i idx m0 t0 a b show ?thesis by (intro exI [of _ i]) simp
  qed
  from len step pipeline show ?thesis by blast
qed

theorem placeholder_collision_witness:
  "wf_df ex_combined \<and> fill_placeholders ex_combined = Inr ex_filled
   \<and> explode_merge ex_filled = Inr ex_merged \<and> restore_nulls ex_merged = Inr ex_long
   \<and> cell_of ex_merged (rows ex_merged ! 9) ''moa'' = Some (Str placeholder)
   \<and> cell_of ex_long (rows ex_long ! 9) ''moa'' = Some NaN"
proof -
  have wf: "wf_df ex_combined" by code_simp
  have fp: "fill_placeholders ex_combined = Inr ex_filled" by code_simp
  have em: "explode_merge ex_filled = Inr ex_merged" by code_simp
  have rn: "restore_nulls ex_merged = Inr ex_long" by code_simp
  have k: "9 < length (rows ex_merged)" by (simp add: ex_merged_def)
  have c: "cell_of ex_merged (rows ex_merged ! 9) ''moa'' = Some (Str placeholder)"
    by code_simp
  from placeholder_collision [OF wf fp em rn] k
  have "cell_of ex_long (rows ex_long ! 9) ''moa'' =
          (if (''moa'' = ''moa'' \<or> ''moa'' = ''moa_unique'' \<or> ''moa'' = ''target''
                \<or> ''moa'' = ''target_unique'')
              \<and> cell_of ex_merged (rows ex_merged ! 9) ''moa'' = Some (Str placeholder)
           then Some NaN else cell_of ex_merged (rows ex_merged ! 9) ''moa'')"
    by blast
  with c have "cell_of ex_long (rows ex_long ! 9) ''moa'' = Some NaN"
    by simp
  with wf fp em rn c show ?thesis by simp
qed


lemma filter_concat_enumerate:
  assumes "\<And>j r. j < length rs \<Longrightarrow> r \<in> set (B (n + j) (rs ! j)) \<Longrightarrow> P r \<longleftrightarrow> n + j = i"
  shows "filter P (concat (map (\<lambda>(j, l). B j l) (enumerate n rs)))
           = (if n \<le> i \<and> i < n + length rs then B i (rs ! (i - n)) else [])"
  using assms
proof (induction rs arbitrary: n)
  case Nil
  then show ?case by auto
next
  case (Cons l rs)
  have head: "filter P (B n l) = (if n = i then B n l else [])"
  proof (cases "n = i")
    case True
    have "\<forall>r \<in> set (B n l). P r"
      using Cons.prems [of 0] True by simp
    then show ?thesis using True by (simp add: filter_True)
  next
    case False
    have "\<forall>r \<in> set (B n l). \<not> P r"
      using Cons.prems [of 0] False by simp
    then show ?thesis using False by (simp add: filter_False)
  qed
  have tail: "filter P (concat (map (\<lambda>(j, l). B j l) (enumerate (Suc n) rs)))
           = (if Suc n \<le> i \<and> i < Suc n + length rs then B i (rs ! (i - Suc n)) else [])"
  proof (rule Cons.IH)
    fix j r assume "j < length rs" and "r \<in> set (B (Suc n + j) (rs ! j))"
    with Cons.prems [of "Suc j" r] show "P r \<longleftrightarrow> Suc n + j = i" by simp
  qed
  show ?case
    using head tail by (auto simp: nth_Cons')
qed

lemma concat_map_product:
  "concat (map (\<lambda>v. map (\<lambda>t. h v t) ts) vs) = map (\<lambda>(v, t). h v t) (List.product vs ts)"
  by (induction vs) (simp_all add: comp_def)

text \<open>
  Claim C4, amended.  For every row \<open>i\<close> of the combined table, the rows of the long table
  with back-reference \<open>i\<close> are, in order, one row for each pair of a \<^verbatim>\<open>moa\<close> value and a
  \<^verbatim>\<open>target\<close> value of row \<open>i\<close> (the values obtained by splitting the filled fields on the
  pipe character): the long table holds the cross product of the two lists of values, with
  the placeholder restored to a missing value.
\<close>

theorem long_cross_product:
  assumes wf: "wf_df combined_df" and lf: "long_format combined_df = Inr long"
    and i: "i < length (rows combined_df)"
  shows "\<exists>m0 t0. cell_of combined_df (rows combined_df ! i) ''moa'' = Some m0
     \<and> cell_of combined_df (rows combined_df ! i) ''target'' = Some t0
     \<and> map (\<lambda>r. (cell_of long r ''moa_unique'', cell_of long r ''target_unique''))
          (rows_with long [(split_col_index, Num (int i))])
       = map (\<lambda>(v, t). (Some (restore_cell placeholder (Str v)),
                        Some (restore_cell placeholder (Str t))))
           (List.product (pipe_values (fill_cell placeholder m0))
                         (pipe_values (fill_cell placeholder t0)))"
proof -
  note rect = wf_df_rect [OF wf]
  let ?df = combined_df
  let ?l = "rows ?df ! i"
  from long_format_parts [OF rect lf] obtain f merged km kt F R where
    cf: "columns f = columns ?df" and rf: "rows f = map F (rows ?df)"
    and lF: "\<forall>r. length (F r) = length r"
    and cF: "\<forall>r c. length r = length (columns ?df) \<longrightarrow>
          cell_of f (F r) c =
            (if c = ''moa'' \<or> c = ''target''
             then map_option (fill_cell placeholder) (cell_of ?df r c) else cell_of ?df r c)"
    and km: "get_loc (columns ?df) ''moa'' = Some km"
    and kt: "get_loc (columns ?df) ''target'' = Some kt"
    and n1: "split_col_index \<notin> set (columns ?df)" and n2: "''moa_unique'' \<notin> set (columns ?df)"
    and n3: "''target_unique'' \<notin> set (columns ?df)"
    and cm: "columns merged = columns ?df @ [split_col_index, ''moa_unique'', ''target_unique'']"
    and rm: "rows merged = concat (map (\<lambda>(i, l). concat (map (\<lambda>v.
                       map (\<lambda>t. l @ [Num (int i), Str v, Str t]) (pipe_values (l ! kt)))
                     (pipe_values (l ! km))))
                   (enumerate 0 (rows f)))"
    and rl: "rows long = map R (rows merged)"
    and cR: "\<forall>r c. length r = length (columns merged) \<longrightarrow>
          cell_of long (R r) c =
            (if c = ''moa'' \<or> c = ''moa_unique'' \<or> c = ''target'' \<or> c = ''target_unique''
             then map_option (restore_cell placeholder) (cell_of merged r c)
             else cell_of merged r c)"
    by (elim exE conjE)
  let ?B = "\<lambda>j l. concat (map (\<lambda>v. map (\<lambda>t. l @ [Num (int j), Str v, Str t])
              (pipe_values (l ! kt))) (pipe_values (l ! km)))"
  have cm': "columns merged = columns f @ [split_col_index, ''moa_unique'', ''target_unique'']"
    using cm cf by simp
  have n': "split_col_index \<notin> set (columns f)" "''moa_unique'' \<notin> set (columns f)"
    "''target_unique'' \<notin> set (columns f)"
    using n1 n2 n3 cf by simp_all
  have lenf: "length (rows f ! j) = length (columns f)" if "j < length (rows f)" for j
    using that rect lF cf rf by simp
  have row: "cell_of long (R (rows f ! j @ [Num (int j), Str v, Str t])) split_col_index
               = Some (Num (int j))
           \<and> cell_of long (R (rows f ! j @ [Num (int j), Str v, Str t])) ''moa_unique''
               = Some (restore_cell placeholder (Str v))
           \<and> cell_of long (R (rows f ! j @ [Num (int j), Str v, Str t])) ''target_unique''
               = Some (restore_cell placeholder (Str t))"
    if j: "j < length (rows f)" for j v t
  proof -
    let ?r0 = "rows f ! j @ [Num (int j), Str v, Str t]"
    have len0: "length ?r0 = length (columns merged)"
      using lenf [OF j] cm' by simp
    note m = cell_of_merged_row [OF cm' n' lenf [OF j]]
    from cR len0 m(2) [of "Num (int j)" "Str v" "Str t"] more_label_facts
    have "cell_of long (R ?r0) split_col_index = Some (Num (int j))" by simp
    moreover from cR len0 m(3) [of "Num (int j)" "Str v" "Str t"]
    have "cell_of long (R ?r0) ''moa_unique'' = Some (restore_cell placeholder (Str v))" by simp
    moreover from cR len0 m(4) [of "Num (int j)" "Str v" "Str t"]
    have "cell_of long (R ?r0) ''target_unique'' = Some (restore_cell placeholder (Str t))" by simp
    ultimately show ?thesis by blast
  qed
  from i rf have i': "i < length (rows f)" by simp
  have sel: "filter (\<lambda>r0. cell_of long (R r0) split_col_index = Some (Num (int i))) (rows merged)
           = ?B i (rows f ! i)"
  proof -
    have "filter (\<lambda>r0. cell_of long (R r0) split_col_index = Some (Num (int i)))
             (concat (map (\<lambda>(j, l). ?B j l) (enumerate 0 (rows f))))
          = (if 0 \<le> i \<and> i < 0 + length (rows f) then ?B i (rows f ! (i - 0)) else [])"
    proof (rule filter_concat_enumerate)
      fix j r0 assume j: "j < length (rows f)" and "r0 \<in> set (?B (0 + j) (rows f ! j))"
      then obtain v t where "r0 = rows f ! j @ [Num (int j), Str v, Str t]" by auto
      with row [OF j, of v t]
      show "cell_of long (R r0) split_col_index = Some (Num (int i)) \<longleftrightarrow> 0 + j = i"
        by auto
    qed
    with i' show ?thesis unfolding rm by simp
  qed
  have "rows_with long [(split_col_index, Num (int i))] = map R (?B i (rows f ! i))"
    unfolding rows_with_def rl filter_map comp_def using sel by simp
  then have "map (\<lambda>r. (cell_of long r ''moa_unique'', cell_of long r ''target_unique''))
          (rows_with long [(split_col_index, Num (int i))])
      = concat (map (\<lambda>v. map (\<lambda>t. (Some (restore_cell placeholder (Str v)),
                                   Some (restore_cell placeholder (Str t))))
                  (pipe_values (rows f ! i ! kt))) (pipe_values (rows f ! i ! km)))"
    using row [OF i'] by (simp add: map_concat comp_def)
  also have "\<dots> = map (\<lambda>(v, t). (Some (restore_cell placeholder (Str v)),
                        Some (restore_cell placeholder (Str t))))
           (List.product (pipe_values (rows f ! i ! km)) (pipe_values (rows f ! i ! kt)))"
    by (rule concat_map_product)
  finally have main: "map (\<lambda>r. (cell_of long r ''moa_unique'', cell_of long r ''target_unique''))
          (rows_with long [(split_col_index, Num (int i))])
      = map (\<lambda>(v, t). (Some (restore_cell placeholder (Str v)),
                        Some (restore_cell placeholder (Str t))))
           (List.product (pipe_values (rows f ! i ! km)) (pipe_values (rows f ! i ! kt)))" .
  from rect i have len: "length ?l = length (columns ?df)" by simp
  from i rf have fi: "rows f ! i = F ?l" by simp
  have moa_df: "cell_of ?df ?l ''moa'' = Some (?l ! km)"
    and tgt_df: "cell_of ?df ?l ''target'' = Some (?l ! kt)"
    using km kt by (simp_all add: cell_of_def)
  have "cell_of f (F ?l) ''moa'' = Some (F ?l ! km)"
    using km cf by (simp add: cell_of_def)
  with cF len moa_df have fm: "F ?l ! km = fill_cell placeholder (?l ! km)" by simp
  have "cell_of f (F ?l) ''target'' = Some (F ?l ! kt)"
    using kt cf by (simp add: cell_of_def)
  with cF len tgt_df have ft: "F ?l ! kt = fill_cell placeholder (?l ! kt)" by simp
  from main moa_df tgt_df show ?thesis
    unfolding fi fm ft by blast
qed

theorem long_cross_product_witness:
  "wf_df ex_combined \<and> long_format ex_combined = Inr ex_long
   \<and> map (\<lambda>r. (cell_of ex_long r ''moa_unique'', cell_of ex_long r ''target_unique''))
        (rows_with ex_long [(split_col_index, Num 0)])
      = [(Some (Str ''a''), Some (Str ''x'')), (Some (Str ''a''), Some (Str ''y'')),
         (Some (Str ''b''), Some (Str ''x'')), (Some (Str ''b''), Some (Str ''y''))]"
proof -
  have wf: "wf_df ex_combined" by code_simp
  have lf: "long_format ex_combined = Inr ex_long" by code_simp
  have i: "0 < length (rows ex_combined)" by (simp add: ex_combined_def)
  have m: "cell_of ex_combined (rows ex_combined ! 0) ''moa'' = Some (Str ''a|b'')"
    by code_simp
  have t: "cell_of ex_combined (rows ex_combined ! 0) ''target'' = Some (Str ''x|y'')"
    by code_simp
  have e: "map (\<lambda>(v, t). (Some (restore_cell placeholder (Str v)),
                          Some (restore_cell placeholder (Str t))))
             (List.product (pipe_values (fill_cell placeholder (Str ''a|b'')))
                           (pipe_values (fill_cell placeholder (Str ''x|y''))))
           = [(Some (Str ''a''), Some (Str ''x'')), (Some (Str ''a''), Some (Str ''y'')),
              (Some (Str ''b''), Some (Str ''x'')), (Some (Str ''b''), Some (Str ''y''))]"
    by code_simp
  from long_cross_product [OF wf lf i] obtain m0 t0 where
    m0: "cell_of ex_combined (rows ex_combined ! 0) ''moa'' = Some m0" and
    t0: "cell_of ex_combined (rows ex_combined ! 0) ''target'' = Some t0" and
    eq: "map (\<lambda>r. (cell_of ex_long r ''moa_unique'', cell_of ex_long r ''target_unique''))
          (rows_with ex_long [(split_col_index, Num (int 0))])
       = map (\<lambda>(v, t). (Some (restore_cell placeholder (Str v)),
                        Some (restore_cell placeholder (Str t))))
           (List.product (pipe_values (fill_cell placeholder m0))
                         (pipe_values (fill_cell placeholder t0)))"
    by blast
  from m0 m have m0': "m0 = Str ''a|b''" by simp
  from t0 t have t0': "t0 = Str ''x|y''" by simp
  have "map (\<lambda>r. (cell_of ex_long r ''moa_unique'', cell_of ex_long r ''target_unique''))
          (rows_with ex_long [(split_col_index, Num 0)])
      = [(Some (Str ''a''), Some (Str ''x'')), (Some (Str ''a''), Some (Str ''y'')),
         (Some (Str ''b''), Some (Str ''x'')), (Some (Str ''b''), Some (Str ''y''))]"
    using eq unfolding m0' t0' e by simp
  with wf lf show ?thesis by simp
qed

theorem one_row_per_value_counterexample:
  "long_format ex_combined = Inr ex_long
   \<and> cell_of ex_combined (rows ex_combined ! 0) ''moa'' = Some (Str ''a|b'')
   \<and> cell_of ex_combined (rows ex_combined ! 0) ''target'' = Some (Str ''x|y'')
   \<and> str_split CHR ''|'' ''a|b'' = [''a'', ''b'']
   \<and> str_split CHR ''|'' ''x|y'' = [''x'', ''y'']
   \<and> length (rows_with ex_long [(split_col_index, Num 0)]) = 4
   \<and> length (rows_with ex_long [(split_col_index, Num 0), (''moa_unique'', Str ''a'')]) = 2
   \<and> length (rows_with ex_long [(split_col_index, Num 0), (''target_unique'', Str ''x'')]) = 2"
  by code_simp


end
